theory Spec2Isabelle
  imports Main "HOL-Library.Multiset"
begin

section \<open>Client data model\<close>

text \<open>
  The objects of the history endpoint, as the interfaces \<^verbatim>\<open>Job\<close> (JobQueuePanel.tsx) and
  \<^verbatim>\<open>HistoryJob\<close> (HistoryPanel.tsx) declare them. Both interfaces describe the same JSON
  objects; the record has the fields of both (\<open>elapsed\<close> is optional in \<^verbatim>\<open>Job\<close>,
  \<open>result_dir\<close> belongs to \<^verbatim>\<open>HistoryJob\<close>). \<open>runtime\<close> is \<^verbatim>\<open>number | null\<close>.
  Strings are lists of 8-bit code units.
\<close>

record job =
  task_id :: string
  filename :: string
  original_filename :: string
  timestamp :: string
  runtime :: "int option"
  status :: string
  elapsed :: "int option"
  result_dir :: string

text \<open>A toast notification (its title).\<close>

datatype toast = ToastInfo string | ToastSuccess string | ToastError string

text \<open>A rendered element: tag or component name, \<^verbatim>\<open>className\<close>, children.\<close>

datatype jsx = Elem string string "jsx list" | Text string

text \<open>
  \<^verbatim>\<open>String.prototype.trim\<close> on the code units below 256: the white space and line
  terminator characters there are TAB, LF, VT, FF, CR, SP and NBSP.
\<close>

definition is_space :: "char \<Rightarrow> bool" where
  "is_space c = ((of_char c :: nat) \<in> {9, 10, 11, 12, 13, 32, 160})"

definition trim :: "string \<Rightarrow> string" where
  "trim s = rev (dropWhile is_space (rev (dropWhile is_space s)))"

text \<open>
  A number of the client where the code can produce \<^verbatim>\<open>NaN\<close>: the time of a timestamp that
  does not parse as a date, the rank of a status that is not a number, and what is computed
  from them. The other numbers of the model are integers.
\<close>

datatype js_number = Num int | NaN

fun js_minus :: "js_number \<Rightarrow> js_number \<Rightarrow> js_number" where
  "js_minus (Num a) (Num b) = Num (a - b)"
| "js_minus _ _ = NaN"

text \<open>\<^verbatim>\<open>Math.floor(ms / 1000)\<close>\<close>

fun floor_seconds :: "js_number \<Rightarrow> js_number" where
  "floor_seconds (Num ms) = Num (ms div 1000)"
| "floor_seconds NaN = NaN"

text \<open>\<^verbatim>\<open>a <= b\<close>, which is false when one side is \<^verbatim>\<open>NaN\<close>.\<close>

fun js_le :: "js_number \<Rightarrow> js_number \<Rightarrow> bool" where
  "js_le (Num a) (Num b) = (a \<le> b)"
| "js_le _ _ = False"

text \<open>
  \<^verbatim>\<open>Array.prototype.sort\<close> with a comparator. The sort reads a result \<^verbatim>\<open>NaN\<close> of the
  comparator as 0 and is stable (ECMAScript 2019): an element goes before the elements it
  does not compare greater than, and elements that compare equal keep their order. It is
  modelled by insertion from the right. For a comparator that is consistent on the list
  every stable sort returns this list. When the comparator is not consistent (a result
  \<^verbatim>\<open>NaN\<close> can make it so) the language leaves the order to the implementation, and the
  model gives one order that may be returned; the theorems on the order of a sorted list
  are stated for consistent comparators only.
\<close>

definition not_after :: "js_number \<Rightarrow> bool" where
  "not_after v = (case v of NaN \<Rightarrow> True | Num n \<Rightarrow> n \<le> 0)"

fun insert_by :: "('a \<Rightarrow> 'a \<Rightarrow> js_number) \<Rightarrow> 'a \<Rightarrow> 'a list \<Rightarrow> 'a list" where
  "insert_by cmp x [] = [x]"
| "insert_by cmp x (y # ys) =
     (if not_after (cmp x y) then x # y # ys else y # insert_by cmp x ys)"

definition array_sort :: "('a \<Rightarrow> 'a \<Rightarrow> js_number) \<Rightarrow> 'a list \<Rightarrow> 'a list" where
  "array_sort cmp xs = foldr (insert_by cmp) xs []"

text \<open>
  The body of a response of \<^verbatim>\<open>/api/history\<close>: its \<^verbatim>\<open>status\<close> and its \<^verbatim>\<open>jobs\<close> (absent
  is \<open>None\<close>; an array, also an empty one, is truthy). A request that fails, or a body
  that is not JSON, is the response \<open>None\<close>.
\<close>

record history_response =
  resp_status :: string
  resp_jobs :: "job list option"

section \<open>JobQueuePanel\<close>

text \<open>
  The file JobQueuePanel.tsx holds the component \<^verbatim>\<open>JobQueuePanel\<close>, modelled in this
  section, and after it the component \<^verbatim>\<open>App\<close>, modelled further down.
\<close>

text \<open>
  \<^verbatim>\<open>fetchJobs\<close>: the new value of the state \<^verbatim>\<open>jobs\<close>. Of the first ten jobs of the
  response, sorted with the running ones first and then the newest first, the first five
  are kept; a failed request or another response leaves \<^verbatim>\<open>jobs\<close> as it was. The function
  \<open>getTime\<close> is \<^verbatim>\<open>new Date(timestamp).getTime()\<close>, taken as a parameter: the time in
  milliseconds, or \<^verbatim>\<open>NaN\<close> for a timestamp that does not parse. (The callback
  \<^verbatim>\<open>onJobComplete\<close> is not passed by \<^verbatim>\<open>App\<close>.)
\<close>

definition fetchJobs ::
  "(string \<Rightarrow> js_number) \<Rightarrow> history_response option \<Rightarrow> job list \<Rightarrow> job list" where
  "fetchJobs getTime response jobs =
     (case response of
        None \<Rightarrow> jobs
      | Some data \<Rightarrow>
          (case resp_jobs data of
             None \<Rightarrow> jobs
           | Some data_jobs \<Rightarrow>
               if resp_status data = ''success''
               then take 5 (array_sort
                      (\<lambda>a b. if status a = ''running'' \<and> status b \<noteq> ''running'' then Num (- 1)
                             else if status a \<noteq> ''running'' \<and> status b = ''running'' then Num 1
                             else js_minus (getTime (timestamp b)) (getTime (timestamp a)))
                      (take 10 data_jobs))
               else jobs))"

definition runningJobs :: "job list \<Rightarrow> job list" where
  "runningJobs jobs = filter (\<lambda>j. status j = ''running'') jobs"

definition recentJobs :: "job list \<Rightarrow> job list" where
  "recentJobs jobs = take 3 (filter (\<lambda>j. status j \<noteq> ''running'') jobs)"

text \<open>\<^verbatim>\<open>getDisplayName\<close> of JobQueuePanel.tsx (names longer than 20 are cut to 17 and dots).\<close>

definition queueDisplayName :: "job \<Rightarrow> string" where
  "queueDisplayName j =
     (if original_filename j \<noteq> [] \<and> trim (original_filename j) \<noteq> []
      then (let name = original_filename j
            in if length name > 20 then take 17 name @ ''...'' else name)
      else ''Task '' @ task_id j)"

text \<open>
  \<^verbatim>\<open>getStatusIcon\<close>: a \<^verbatim>\<open>switch\<close> whose cases all return, as the table of its case labels
  and the element of its \<^verbatim>\<open>default\<close> branch.
\<close>

definition statusIconCases :: "(string \<times> jsx) list" where
  "statusIconCases =
     [(''running'', Elem ''Loader2'' ''h-3.5 w-3.5 animate-spin text-blue-500'' []),
      (''finished'', Elem ''CheckCircle2'' ''h-3.5 w-3.5 text-emerald-500'' []),
      (''error'', Elem ''AlertCircle'' ''h-3.5 w-3.5 text-red-500'' []),
      (''cancelled'', Elem ''XCircle'' ''h-3.5 w-3.5 text-gray-400'' [])]"

definition defaultStatusIcon :: jsx where
  "defaultStatusIcon = Elem ''AlertCircle'' ''h-3.5 w-3.5 text-gray-400'' []"

definition getStatusIcon :: "string \<Rightarrow> jsx" where
  "getStatusIcon s =
     (case map_of statusIconCases s of Some icon \<Rightarrow> icon | None \<Rightarrow> defaultStatusIcon)"

text \<open>
  What the component returns. The trigger button shows either the number of running jobs
  or the label \<^verbatim>\<open>Jobs\<close>; the dropdown body is the list of the sections whose guard holds, in
  the order of the source. A running row is (key, display name); a recent row is (key,
  status icon, display name); the flag of the recent section says whether the heading
  \<^verbatim>\<open>Recent\<close> is shown. The numeric labels of the rows (elapsed time, runtime) are left out.
\<close>

datatype queue_trigger = RunningCount nat | JobsLabel

datatype queue_section =
    RunningSection "(string \<times> string) list"
  | RecentSection bool "(string \<times> jsx \<times> string) list"
  | NoRecentJobs

record queue_view =
  trigger :: queue_trigger
  sections :: "queue_section list"

definition JobQueuePanel :: "job list \<Rightarrow> queue_view option" where
  "JobQueuePanel jobs =
     (if length jobs = 0 then None
      else Some \<lparr>
        trigger = (if length (runningJobs jobs) > 0
                   then RunningCount (length (runningJobs jobs)) else JobsLabel),
        sections =
          (if length (runningJobs jobs) > 0
           then [RunningSection (map (\<lambda>j. (task_id j, queueDisplayName j)) (runningJobs jobs))]
           else []) @
          (if length (recentJobs jobs) > 0
           then [RecentSection (length (runningJobs jobs) > 0)
                   (map (\<lambda>j. (task_id j, getStatusIcon (status j), queueDisplayName j))
                      (recentJobs jobs))]
           else []) @
          (if length jobs = 0 then [NoRecentJobs] else []) \<rparr>)"

section \<open>HistoryPanel\<close>

text \<open>
  The file HistoryPanel.tsx holds two versions of the component. The model follows the
  later one, which sorts the history and can cancel and delete jobs; the earlier one has
  the same \<^verbatim>\<open>getDisplayName\<close> and the same download menu.
\<close>

text \<open>
  \<^verbatim>\<open>getStatusBadge\<close>, in the same form as \<^verbatim>\<open>getStatusIcon\<close>: the case table and the
  \<^verbatim>\<open>default\<close> branch, which shows the status string itself.
\<close>

definition statusBadgeCases :: "(string \<times> jsx) list" where
  "statusBadgeCases =
     [(''finished'',
        Elem ''span'' ''inline-flex items-center px-2.5 py-1 text-xs font-medium rounded-full bg-emerald-50 text-emerald-700 ring-1 ring-inset ring-emerald-600/20''
          [Elem ''span'' ''w-1.5 h-1.5 rounded-full bg-emerald-500 mr-1.5'' [], Text ''Completed'']),
      (''running'',
        Elem ''span'' ''inline-flex items-center px-2.5 py-1 text-xs font-medium rounded-full bg-blue-50 text-blue-700 ring-1 ring-inset ring-blue-600/20''
          [Elem ''Loader2'' ''w-3 h-3 mr-1.5 animate-spin'' [], Text ''Running'']),
      (''error'',
        Elem ''span'' ''inline-flex items-center px-2.5 py-1 text-xs font-medium rounded-full bg-red-50 text-red-700 ring-1 ring-inset ring-red-600/20''
          [Elem ''span'' ''w-1.5 h-1.5 rounded-full bg-red-500 mr-1.5'' [], Text ''Error'']),
      (''cancelled'',
        Elem ''span'' ''inline-flex items-center px-2.5 py-1 text-xs font-medium rounded-full bg-gray-50 text-gray-600 ring-1 ring-inset ring-gray-500/20''
          [Elem ''span'' ''w-1.5 h-1.5 rounded-full bg-gray-400 mr-1.5'' [], Text ''Cancelled''])]"

definition defaultStatusBadge :: "string \<Rightarrow> jsx" where
  "defaultStatusBadge s =
     Elem ''span'' ''inline-flex items-center px-2.5 py-1 text-xs font-medium rounded-full bg-gray-50 text-gray-600 ring-1 ring-inset ring-gray-500/20''
       [Text s]"

definition getStatusBadge :: "string \<Rightarrow> jsx" where
  "getStatusBadge s =
     (case map_of statusBadgeCases s of Some badge \<Rightarrow> badge | None \<Rightarrow> defaultStatusBadge s)"

text \<open>The status values the client-facing surface names (section 6 of the specification).\<close>

definition status_values :: "string list" where
  "status_values = [''pending'', ''running'', ''finished'', ''error'', ''cancelled'']"

subsection \<open>Sorting the history\<close>

datatype SortOption = Newest | Oldest | Status | Runtime

text \<open>The initial value of the state \<^verbatim>\<open>sortBy\<close>.\<close>

definition initialSortBy :: SortOption where
  "initialSortBy = Newest"

text \<open>
  The names of the members every object inherits from \<^verbatim>\<open>Object.prototype\<close>. Looked up in
  the object \<^verbatim>\<open>statusOrder\<close> such a name gives a function or an object, which is not
  nullish, and the subtraction of the comparator gives \<^verbatim>\<open>NaN\<close>.
\<close>

definition inherited_members :: "string list" where
  "inherited_members =
     [''constructor'', ''__defineGetter__'', ''__defineSetter__'', ''hasOwnProperty'',
      ''__lookupGetter__'', ''__lookupSetter__'', ''isPrototypeOf'', ''propertyIsEnumerable'',
      ''toString'', ''valueOf'', ''__proto__'', ''toLocaleString'']"

text \<open>
  \<^verbatim>\<open>statusOrder[status] ?? 4\<close> as the number the comparator subtracts: the rank of a key,
  \<^verbatim>\<open>NaN\<close> for an inherited member, 4 for every other status.
\<close>

definition statusOrder :: "string \<Rightarrow> js_number" where
  "statusOrder s =
     (case map_of [(''running'', 0), (''finished'', 1), (''error'', 2), (''cancelled'', 3)] s of
        Some n \<Rightarrow> Num n
      | None \<Rightarrow> if s \<in> set inherited_members then NaN else Num 4)"

text \<open>\<^verbatim>\<open>runtime ?? 0\<close>\<close>

definition runtime_or_0 :: "job \<Rightarrow> int" where
  "runtime_or_0 j = (case runtime j of None \<Rightarrow> 0 | Some r \<Rightarrow> r)"

definition sortedJobs :: "(string \<Rightarrow> js_number) \<Rightarrow> SortOption \<Rightarrow> job list \<Rightarrow> job list" where
  "sortedJobs getTime sortBy jobs =
     (case sortBy of
        Newest \<Rightarrow>
          array_sort (\<lambda>a b. js_minus (getTime (timestamp b)) (getTime (timestamp a))) jobs
      | Oldest \<Rightarrow>
          array_sort (\<lambda>a b. js_minus (getTime (timestamp a)) (getTime (timestamp b))) jobs
      | Status \<Rightarrow>
          array_sort (\<lambda>a b. js_minus (statusOrder (status a)) (statusOrder (status b))) jobs
      | Runtime \<Rightarrow> array_sort (\<lambda>a b. Num (runtime_or_0 b - runtime_or_0 a)) jobs)"

subsection \<open>The displayed name\<close>

text \<open>
  The regular expression of \<^verbatim>\<open>getDisplayName\<close>,
  \<^verbatim>\<open>/^user_upload_\d+_\d+_[a-f0-9]+\.(.+)$/i\<close>, is a sequence of items, each one character
  of a class or a greedy repetition \<^verbatim>\<open>+\<close> of a class, matched by backtracking from the
  start of the string; the continuation \<open>k\<close> matches what follows the items.
\<close>

datatype rx_item = One "char \<Rightarrow> bool" | Plus "char \<Rightarrow> bool"

fun rx_match :: "rx_item list \<Rightarrow> (string \<Rightarrow> 'a option) \<Rightarrow> string \<Rightarrow> 'a option" where
  "rx_match [] k s = k s"
| "rx_match (One p # items) k [] = None"
| "rx_match (One p # items) k (c # cs) = (if p c then rx_match items k cs else None)"
| "rx_match (Plus p # items) k [] = None"
| "rx_match (Plus p # items) k (c # cs) =
     (if p c
      then (case rx_match (Plus p # items) k cs of
              Some r \<Rightarrow> Some r
            | None \<Rightarrow> rx_match items k cs)
      else None)"

text \<open>
  The character classes under the flag \<^verbatim>\<open>i\<close>: characters are compared after
  canonicalization (the code unit of the upper case; only the letters of ASCII matter,
  since a character from 128 on is never mapped to one below), so a letter of the pattern
  matches both of its cases, \<^verbatim>\<open>\d\<close> the ten digits, \<^verbatim>\<open>[a-f0-9]\<close> the hexadecimal digits of both cases, and
  \<^verbatim>\<open>.\<close> every character but a line terminator (LF and CR below 256).
\<close>

definition canonicalize :: "char \<Rightarrow> nat" where
  "canonicalize c =
     (if 97 \<le> (of_char c :: nat) \<and> (of_char c :: nat) \<le> 122
      then of_char c - 32 else of_char c)"

definition ci :: "char \<Rightarrow> char \<Rightarrow> bool" where
  "ci p c = (canonicalize c = canonicalize p)"

definition is_digit :: "char \<Rightarrow> bool" where
  "is_digit c = (48 \<le> (of_char c :: nat) \<and> (of_char c :: nat) \<le> 57)"

definition is_hex :: "char \<Rightarrow> bool" where
  "is_hex c = (is_digit c \<or> (65 \<le> canonicalize c \<and> canonicalize c \<le> 70))"

definition is_dot :: "char \<Rightarrow> bool" where
  "is_dot c = ((of_char c :: nat) \<noteq> 10 \<and> (of_char c :: nat) \<noteq> 13)"

definition upload_regex :: "rx_item list" where
  "upload_regex =
     map (\<lambda>p. One (ci p)) ''user_upload_'' @
     [Plus is_digit, One (ci (CHR ''_'')), Plus is_digit, One (ci (CHR ''_'')),
      Plus is_hex, One (ci (CHR ''.''))]"

text \<open>The group \<^verbatim>\<open>(.+)$\<close>: the rest of the string, not empty, with no line terminator.\<close>

definition rest_group :: "string \<Rightarrow> string option" where
  "rest_group s = (if s \<noteq> [] \<and> list_all is_dot s then Some s else None)"

text \<open>\<^verbatim>\<open>job.filename.match(...)\<close>: the text of group 1 when the string matches.\<close>

definition match_upload :: "string \<Rightarrow> string option" where
  "match_upload s = rx_match upload_regex rest_group s"

definition getDisplayName :: "job \<Rightarrow> string" where
  "getDisplayName j =
     (if original_filename j \<noteq> [] \<and> trim (original_filename j) \<noteq> []
      then original_filename j
      else if filename j \<noteq> [] \<and> trim (filename j) \<noteq> []
      then (case match_upload (filename j) of
              Some ext \<Rightarrow> ''Document.'' @ ext
            | None \<Rightarrow> filename j)
      else ''Task '' @ task_id j)"

text \<open>
  The upload pattern in words: \<^verbatim>\<open>user_upload_\<close> (in either case), digits, an underscore,
  digits, an underscore, hexadecimal digits, a dot and an extension \<open>ext\<close> on one line.
\<close>

definition upload_pattern :: "string \<Rightarrow> string \<Rightarrow> bool" where
  "upload_pattern s ext \<longleftrightarrow>
     (\<exists>p d1 d2 h.
        s = p @ d1 @ ''_'' @ d2 @ ''_'' @ h @ ''.'' @ ext \<and>
        map canonicalize p = map canonicalize ''user_upload_'' \<and>
        d1 \<noteq> [] \<and> list_all is_digit d1 \<and>
        d2 \<noteq> [] \<and> list_all is_digit d2 \<and>
        h \<noteq> [] \<and> list_all is_hex h \<and>
        ext \<noteq> [] \<and> list_all is_dot ext)"

subsection \<open>Actions on a job of the history\<close>

text \<open>The formats of \<^verbatim>\<open>handleDownloadZip\<close>: \<^verbatim>\<open>'mmd' | 'md' | 'txt'\<close>.\<close>

datatype export_format = Mmd | Md | Txt

fun format_string :: "export_format \<Rightarrow> string" where
  "format_string Mmd = ''mmd''"
| "format_string Md = ''md''"
| "format_string Txt = ''txt''"

text \<open>The address \<^verbatim>\<open>handleDownloadZip\<close> fetches.\<close>

definition downloadUrl :: "string \<Rightarrow> string \<Rightarrow> export_format \<Rightarrow> string" where
  "downloadUrl base tid format =
     base @ ''/api/download/zip/'' @ tid @ ''?format='' @ format_string format"

text \<open>
  The controls in the actions column of a job card, in the order of the source: the cancel
  button of a running job (disabled while the task is being cancelled), the download menu
  of a finished job with its three items, and the delete button, which is always there.
\<close>

datatype job_action = CancelButton bool | DownloadMenu "export_format list" | DeleteButton

definition job_actions :: "string set \<Rightarrow> job \<Rightarrow> job_action list" where
  "job_actions cancelling j =
     (if status j = ''running'' then [CancelButton (task_id j \<in> cancelling)] else []) @
     (if status j = ''finished'' then [DownloadMenu [Mmd, Md, Txt]] else []) @
     [DeleteButton]"

text \<open>The state of the history panel (its \<^verbatim>\<open>useState\<close> values and the toasts shown).\<close>

record history_state =
  hp_jobs :: "job list"
  hp_isLoading :: bool
  hp_sortBy :: SortOption
  hp_cancellingTasks :: "string set"
  hp_toasts :: "toast list"

text \<open>\<^verbatim>\<open>fetchHistory\<close> with the response it gets (\<open>None\<close>: the request throws).\<close>

definition fetchHistory :: "history_response option \<Rightarrow> history_state \<Rightarrow> history_state" where
  "fetchHistory response st =
     (case response of
        None \<Rightarrow> st\<lparr>hp_isLoading := False,
                    hp_toasts := hp_toasts st @ [ToastError ''Failed to load history'']\<rparr>
      | Some data \<Rightarrow>
          (case resp_jobs data of
             None \<Rightarrow> st\<lparr>hp_isLoading := False\<rparr>
           | Some data_jobs \<Rightarrow>
               if resp_status data = ''success''
               then st\<lparr>hp_jobs := data_jobs, hp_isLoading := False\<rparr>
               else st\<lparr>hp_isLoading := False\<rparr>))"

text \<open>
  \<^verbatim>\<open>handleDeleteTask\<close>: the answer to the confirmation dialog, the body of the response
  to the \<^verbatim>\<open>DELETE\<close> request and, when the history is fetched again, the response to that.
\<close>

record delete_response =
  del_status :: string
  del_message :: string

definition handleDeleteTask ::
  "bool \<Rightarrow> delete_response option \<Rightarrow> history_response option \<Rightarrow> history_state \<Rightarrow> history_state" where
  "handleDeleteTask confirmed response refetched st =
     (if \<not> confirmed then st
      else case response of
        None \<Rightarrow> st\<lparr>hp_toasts := hp_toasts st @ [ToastError ''Failed to delete task'']\<rparr>
      | Some data \<Rightarrow>
          if del_status data = ''success''
          then fetchHistory refetched
                 (st\<lparr>hp_toasts := hp_toasts st @ [ToastSuccess ''Task deleted'']\<rparr>)
          else st\<lparr>hp_toasts := hp_toasts st @ [ToastError ''Failed to delete task'']\<rparr>)"

section \<open>App: the running task\<close>

text \<open>
  The state of the component \<^verbatim>\<open>App\<close> that the handlers below read or write: the values
  of \<^verbatim>\<open>useState\<close>, the three refs, the timers the component has running, the websockets
  it has opened (by the task each was opened for; the component never closes one) and the
  toasts it has shown. An uploaded file is its name. A timer started with
  \<^verbatim>\<open>setInterval\<close> is its handle and its callback: the elapsed-time counter (with the start
  time it closes over) or the progress poll (with the task it tracks and the start time).
  Handles are positive, so a ref that holds one is truthy. Times are milliseconds.
\<close>

datatype interval = ElapsedTimer int | PollTimer string int

record app_state =
  uploadedFile :: "string option"
  uploadedFilePath :: string
  originalFilename :: string
  isProcessing :: bool
  taskId :: string
  resultDir :: string
  parseCompleted :: bool
  selectedPreviewFile :: "string option"
  consoleMessages :: "string list"
  elapsedTime :: js_number
  totalRuntime :: "int option"
  hasRestoredState :: bool
  pollIntervalRef :: "nat option"
  timerIntervalRef :: "nat option"
  intervals :: "(nat \<times> interval) list"
  nextHandle :: nat
  sockets :: "string list"
  toasts :: "toast list"

text \<open>The state of a freshly mounted component.\<close>

definition initial_state :: app_state where
  "initial_state =
     \<lparr>uploadedFile = None, uploadedFilePath = [], originalFilename = [],
      isProcessing = False, taskId = [], resultDir = [], parseCompleted = False,
      selectedPreviewFile = None, consoleMessages = [], elapsedTime = Num 0,
      totalRuntime = None, hasRestoredState = False, pollIntervalRef = None,
      timerIntervalRef = None, intervals = [], nextHandle = 1, sockets = [], toasts = []\<rparr>"

definition setInterval :: "interval \<Rightarrow> app_state \<Rightarrow> nat \<times> app_state" where
  "setInterval callback c =
     (nextHandle c,
      c\<lparr>intervals := (nextHandle c, callback) # intervals c, nextHandle := Suc (nextHandle c)\<rparr>)"

text \<open>\<^verbatim>\<open>if (ref.current) clearInterval(ref.current)\<close>\<close>

definition clearInterval :: "nat option \<Rightarrow> app_state \<Rightarrow> app_state" where
  "clearInterval ref c =
     (case ref of
        None \<Rightarrow> c
      | Some h \<Rightarrow> c\<lparr>intervals := filter (\<lambda>(k, callback). k \<noteq> h) (intervals c)\<rparr>)"

definition startPolling :: "string \<Rightarrow> int \<Rightarrow> app_state \<Rightarrow> app_state" where
  "startPolling taskIdToTrack startTime c =
     (let (h1, c1) = setInterval (ElapsedTimer startTime) c;
          c2 = c1\<lparr>timerIntervalRef := Some h1\<rparr>;
          (h2, c3) = setInterval (PollTimer taskIdToTrack startTime) c2
      in c3\<lparr>pollIntervalRef := Some h2\<rparr>)"

text \<open>
  The bodies of the responses of \<^verbatim>\<open>/api/progress\<close> and \<^verbatim>\<open>/api/result\<close>; a request that
  throws is \<open>None\<close> (the \<^verbatim>\<open>catch\<close> of the callback logs it).
\<close>

record progress_response =
  pr_status :: string
  pr_state :: string

record result_response =
  rr_status :: string
  rr_state :: string
  rr_result_dir :: string
  rr_runtime :: "int option"

text \<open>The condition under which the poll callback stops the timers.\<close>

definition observes_terminal :: "progress_response option \<Rightarrow> bool" where
  "observes_terminal progress =
     (case progress of
        None \<Rightarrow> False
      | Some progressData \<Rightarrow>
          pr_status progressData = ''success'' \<and>
          (pr_state progressData = ''finished'' \<or> pr_state progressData = ''error'' \<or>
           pr_state progressData = ''cancelled''))"

text \<open>
  One run of the poll callback of \<^verbatim>\<open>startPolling\<close> at the time \<open>now\<close>, with the
  responses its two requests get. \<^verbatim>\<open>resultData.runtime || ...\<close> takes the fallback for a
  missing runtime and for 0.
\<close>

definition poll_callback ::
  "string \<Rightarrow> int \<Rightarrow> int \<Rightarrow> progress_response option \<Rightarrow> result_response option \<Rightarrow>
   app_state \<Rightarrow> app_state" where
  "poll_callback taskIdToTrack startTime now progress result c =
     (case progress of
        None \<Rightarrow> c
      | Some progressData \<Rightarrow>
          if observes_terminal progress
          then
            (let c1 = (clearInterval (timerIntervalRef c) (clearInterval (pollIntervalRef c) c))
                        \<lparr>isProcessing := False\<rparr>
             in if pr_state progressData = ''finished''
                then (case result of
                        None \<Rightarrow> c1
                      | Some resultData \<Rightarrow>
                          if rr_status resultData = ''success'' \<and> rr_state resultData = ''finished''
                          then c1\<lparr>resultDir := rr_result_dir resultData,
                                  parseCompleted := True,
                                  totalRuntime := Some
                                    (case rr_runtime resultData of
                                       None \<Rightarrow> (now - startTime) div 1000
                                     | Some r \<Rightarrow> if r \<noteq> 0 then r else (now - startTime) div 1000),
                                  toasts := toasts c1 @ [ToastSuccess ''Processing complete!'']\<rparr>
                          else c1)
                else if pr_state progressData = ''cancelled''
                then c1\<lparr>toasts := toasts c1 @ [ToastInfo ''Task was cancelled'']\<rparr>
                else if pr_state progressData = ''error''
                then c1\<lparr>toasts := toasts c1 @ [ToastError ''Processing failed'']\<rparr>
                else c1)
          else c)"

text \<open>
  The timer with handle \<open>h\<close> fires; a timer that was cleared does not. The component is
  taken to stay mounted (the cleanup of the effect clears both timers when it unmounts).
\<close>

definition tick ::
  "nat \<Rightarrow> int \<Rightarrow> progress_response option \<Rightarrow> result_response option \<Rightarrow>
   app_state \<Rightarrow> app_state" where
  "tick h now progress result c =
     (case map_of (intervals c) h of
        None \<Rightarrow> c
      | Some (ElapsedTimer startTime) \<Rightarrow>
          c\<lparr>elapsedTime := floor_seconds (Num (now - startTime))\<rparr>
      | Some (PollTimer taskIdToTrack startTime) \<Rightarrow>
          poll_callback taskIdToTrack startTime now progress result c)"

text \<open>The polling loop: the poll timer \<open>h\<close> fires once for every entry of the list.\<close>

definition poll_loop ::
  "nat \<Rightarrow> (int \<times> progress_response option \<times> result_response option) list \<Rightarrow>
   app_state \<Rightarrow> app_state" where
  "poll_loop h rounds c = foldl (\<lambda>c (now, progress, result). tick h now progress result c) c rounds"

definition polling :: "nat \<Rightarrow> app_state \<Rightarrow> bool" where
  "polling h c = (case map_of (intervals c) h of Some (PollTimer t s) \<Rightarrow> True | _ \<Rightarrow> False)"

text \<open>
  \<^verbatim>\<open>checkRunningJobs\<close>, run by the effect on mount, at the time \<open>now\<close> with the response
  of \<^verbatim>\<open>/api/history\<close>. The elapsed time is \<^verbatim>\<open>NaN\<close> when the timestamp of the job does not
  parse.
\<close>

definition checkRunningJobs ::
  "(string \<Rightarrow> js_number) \<Rightarrow> int \<Rightarrow> history_response option \<Rightarrow> app_state \<Rightarrow> app_state" where
  "checkRunningJobs getTime now response c =
     (if hasRestoredState c then c
      else case response of
        None \<Rightarrow> c
      | Some data \<Rightarrow>
          (case resp_jobs data of
             None \<Rightarrow> c
           | Some data_jobs \<Rightarrow>
               if resp_status data = ''success''
               then (case find (\<lambda>job. status job = ''running'') data_jobs of
                       None \<Rightarrow> c
                     | Some runningJob \<Rightarrow>
                         (let c1 = c\<lparr>hasRestoredState := True,
                                     taskId := task_id runningJob,
                                     isProcessing := True,
                                     originalFilename :=
                                       (if original_filename runningJob \<noteq> []
                                        then original_filename runningJob
                                        else if filename runningJob \<noteq> []
                                        then filename runningJob else [])\<rparr>;
                              c2 = (if timestamp runningJob \<noteq> []
                                    then c1\<lparr>elapsedTime :=
                                           floor_seconds
                                             (js_minus (Num now) (getTime (timestamp runningJob)))\<rparr>
                                    else c1);
                              c3 = c2\<lparr>toasts := toasts c2 @ [ToastInfo ''Resuming running job'']\<rparr>
                          in startPolling (task_id runningJob) now c3))
               else c))"

text \<open>
  \<^verbatim>\<open>handleFileChange\<close>: the file (\<open>None\<close> when the file is removed) and, for a file, the
  body of the response to the upload (\<open>None\<close>: the request throws). The handler is taken
  as one step, the response arriving before anything else happens.
\<close>

record upload_response =
  up_status :: string
  up_file_path :: string
  up_original_filename :: string

definition handleFileChange ::
  "string option \<Rightarrow> upload_response option \<Rightarrow> app_state \<Rightarrow> app_state" where
  "handleFileChange file response c =
     (case file of
        None \<Rightarrow>
          c\<lparr>uploadedFile := None, parseCompleted := False, selectedPreviewFile := None,
            isProcessing := False, uploadedFilePath := [], originalFilename := [],
            taskId := [], resultDir := [], consoleMessages := [], elapsedTime := Num 0,
            totalRuntime := None\<rparr>
      | Some name \<Rightarrow>
          (let c1 = c\<lparr>uploadedFile := Some name\<rparr>
           in case response of
                None \<Rightarrow> c1\<lparr>toasts := toasts c1 @ [ToastError ''File upload failed'']\<rparr>
              | Some data \<Rightarrow>
                  if up_status data = ''success''
                  then c1\<lparr>uploadedFilePath := up_file_path data,
                          originalFilename :=
                            (if up_original_filename data \<noteq> []
                             then up_original_filename data else name),
                          toasts := toasts c1 @ [ToastSuccess ''File uploaded successfully'']\<rparr>
                  else c1\<lparr>toasts := toasts c1 @ [ToastError ''File upload failed'']\<rparr>))"

text \<open>
  A parsed websocket message (\<^verbatim>\<open>JSON.parse(event.data)\<close>) with its \<^verbatim>\<open>type\<close> and \<^verbatim>\<open>content\<close>.
  An event whose data is not JSON makes \<^verbatim>\<open>JSON.parse\<close> throw inside the handler, which
  leaves the state as it was: such an event is \<open>None\<close>.
\<close>

record ws_message =
  msg_type :: string
  content :: string

text \<open>The update of the console list in \<^verbatim>\<open>ws.onmessage\<close>.\<close>

definition onmessage :: "ws_message option \<Rightarrow> string list \<Rightarrow> string list" where
  "onmessage event prev =
     (case event of
        None \<Rightarrow> prev
      | Some message \<Rightarrow> if msg_type message = ''log'' then prev @ [content message] else prev)"

text \<open>An event arrives on the websocket opened for \<open>task\<close>.\<close>

definition ws_onmessage :: "string \<Rightarrow> ws_message option \<Rightarrow> app_state \<Rightarrow> app_state" where
  "ws_onmessage task event c =
     (if task \<in> set (sockets c)
      then c\<lparr>consoleMessages := onmessage event (consoleMessages c)\<rparr>
      else c)"

text \<open>
  \<^verbatim>\<open>handleStartParsing\<close> at the time \<open>startTime\<close>, with the body of the response of
  \<^verbatim>\<open>/api/start\<close> (\<open>None\<close>: the request throws). The handler is taken as one step. On
  success it opens the websocket of the task, whose handler \<^verbatim>\<open>onmessage\<close> is
  \<open>ws_onmessage\<close> above, and starts polling; no code closes the socket.
\<close>

record start_response =
  st_status :: string
  st_task_id :: string

definition handleStartParsing :: "int \<Rightarrow> start_response option \<Rightarrow> app_state \<Rightarrow> app_state" where
  "handleStartParsing startTime response c =
     (if uploadedFilePath c = []
      then c\<lparr>toasts := toasts c @ [ToastError ''Please upload a file first'']\<rparr>
      else
        (let c1 = c\<lparr>isProcessing := True, parseCompleted := False, resultDir := [],
                    consoleMessages := [], elapsedTime := Num 0, totalRuntime := None\<rparr>
         in case response of
              None \<Rightarrow>
                c1\<lparr>toasts := toasts c1 @ [ToastError ''Processing failed''],
                   isProcessing := False\<rparr>
            | Some data \<Rightarrow>
                if st_status data = ''running'' \<and> st_task_id data \<noteq> []
                then startPolling (st_task_id data) startTime
                       (c1\<lparr>taskId := st_task_id data,
                           sockets := sockets c1 @ [st_task_id data]\<rparr>)
                else c1\<lparr>toasts := toasts c1 @ [ToastError ''Failed to start processing task''],
                        isProcessing := False\<rparr>))"

text \<open>What happens to the mounted component, one event after the other.\<close>

datatype app_event =
    CheckRunningJobs int "history_response option"
  | FileChange "string option" "upload_response option"
  | StartParsing int "start_response option"
  | Message string "ws_message option"
  | Tick nat int "progress_response option" "result_response option"

fun app_step :: "(string \<Rightarrow> js_number) \<Rightarrow> app_state \<Rightarrow> app_event \<Rightarrow> app_state" where
  "app_step getTime c (CheckRunningJobs now response) = checkRunningJobs getTime now response c"
| "app_step getTime c (FileChange file response) = handleFileChange file response c"
| "app_step getTime c (StartParsing startTime response) = handleStartParsing startTime response c"
| "app_step getTime c (Message task event) = ws_onmessage task event c"
| "app_step getTime c (Tick h now progress result) = tick h now progress result c"

definition app_run :: "(string \<Rightarrow> js_number) \<Rightarrow> app_event list \<Rightarrow> app_state \<Rightarrow> app_state" where
  "app_run getTime events c = foldl (app_step getTime) c events"

section \<open>Console output of the running task\<close>

text \<open>
  \<^verbatim>\<open>ConsoleOutput\<close>: one line per message, numbered \<open>idx + 1\<close>; \<open>None\<close> is the placeholder
  \<^verbatim>\<open>Waiting for output...\<close>. The colour class of a line depends on the message alone and is
  left out.
\<close>

definition ConsoleOutput :: "string list \<Rightarrow> (nat \<times> string) list option" where
  "ConsoleOutput messages =
     (if length messages > 0
      then Some (map (\<lambda>(idx, msg). (idx + 1, msg)) (enumerate 0 messages))
      else None)"


section \<open>Job orchestration\<close>

text \<open>
  The job runner, the record store and the orchestrator belong to the backend, which is
  not among the sources. The definitions of this section follow the specification.
\<close>

text \<open>Modelled from the spec: the status values of a JobRecord (section 3); the backend is missing.\<close>

datatype job_status = Pending | Running | Finished | Error | Cancelled

text \<open>
  Modelled from the spec: the JobRecord of section 3, which the missing backend keeps for
  every submission. Times are integers.
\<close>

record JobRecord =
  jobId :: string
  jobStatus :: job_status
  sourceFileName :: string
  displayName :: string
  submittedAt :: int
  startedAt :: "int option"
  endedAt :: "int option"
  resultLocation :: "string option"
  errorDetail :: "string option"

text \<open>Modelled from the spec: the terminal states of the glossary (the runner is missing).\<close>

definition is_terminal :: "job_status \<Rightarrow> bool" where
  "is_terminal s = (s = Finished \<or> s = Error \<or> s = Cancelled)"

text \<open>
  Modelled from the spec: the status values as the client-facing surface names them
  (section 6); the history endpoint is missing.
\<close>

fun surfaced_status :: "job_status \<Rightarrow> string" where
  "surfaced_status Pending = ''pending''"
| "surfaced_status Running = ''running''"
| "surfaced_status Finished = ''finished''"
| "surfaced_status Error = ''error''"
| "surfaced_status Cancelled = ''cancelled''"

text \<open>
  Modelled from the spec: the pending job that a submission creates in the missing
  orchestrator (section 4.4).
\<close>

definition pending_record :: "string \<Rightarrow> string \<Rightarrow> int \<Rightarrow> JobRecord" where
  "pending_record jid artifact now =
     \<lparr>jobId = jid, jobStatus = Pending, sourceFileName = artifact, displayName = artifact,
      submittedAt = now, startedAt = None, endedAt = None, resultLocation = None,
      errorDetail = None\<rparr>"

subsection \<open>The record store and the orchestrator\<close>

text \<open>
  Modelled from the spec: the persisted state of the missing backend (section 6), the
  records in the order of their creation and the locations of the result artifacts on
  disk.
\<close>

record store =
  records :: "JobRecord list"
  artifacts :: "string list"

text \<open>Modelled from the spec: the errors of section 7 that the missing orchestrator returns.\<close>

datatype orch_error = InvalidInput | NotFound | Conflict | NotReady

text \<open>Modelled from the spec: \<^verbatim>\<open>get(id)\<close> of the missing record store (section 4.1).\<close>

definition get_record :: "string \<Rightarrow> store \<Rightarrow> orch_error + JobRecord" where
  "get_record jid st =
     (case find (\<lambda>r. jobId r = jid) (records st) of
        None \<Rightarrow> Inl NotFound
      | Some r \<Rightarrow> Inr r)"

text \<open>
  Modelled from the spec: \<^verbatim>\<open>list\<close> of the missing orchestrator (section 4.4), without its
  filter and sort options.
\<close>

definition list_records :: "store \<Rightarrow> JobRecord list" where
  "list_records st = records st"

text \<open>
  Modelled from the spec: \<^verbatim>\<open>submit\<close> of the missing orchestrator (section 4.4), with the
  identifier it generates: an invocation without an artifact reference is invalid,
  another one creates a pending record.
\<close>

definition submit :: "string \<Rightarrow> string \<Rightarrow> int \<Rightarrow> store \<Rightarrow> (orch_error + string) \<times> store" where
  "submit jid artifact now st =
     (if artifact = [] then (Inl InvalidInput, st)
      else (Inr jid, st\<lparr>records := records st @ [pending_record jid artifact now]\<rparr>))"

text \<open>
  Modelled from the spec: \<^verbatim>\<open>delete(jobId)\<close> of the missing orchestrator (section 4.4): its
  result and the store it leaves.
\<close>

definition delete_job :: "string \<Rightarrow> store \<Rightarrow> (orch_error + unit) \<times> store" where
  "delete_job jid st =
     (case get_record jid st of
        Inl e \<Rightarrow> (Inl e, st)
      | Inr r \<Rightarrow>
          if is_terminal (jobStatus r)
          then (Inr (),
                st\<lparr>records := filter (\<lambda>r. jobId r \<noteq> jid) (records st),
                   artifacts := (case resultLocation r of
                                   None \<Rightarrow> artifacts st
                                 | Some location \<Rightarrow> removeAll location (artifacts st))\<rparr>)
          else (Inl Conflict, st))"

text \<open>
  Modelled from the spec: \<^verbatim>\<open>fetchResultPackage(jobId, format)\<close> of the missing orchestrator
  (section 4.4); the bundle is the format and the result location it is assembled from.
\<close>

definition fetchResultPackage ::
  "string \<Rightarrow> export_format \<Rightarrow> store \<Rightarrow> orch_error + export_format \<times> string option" where
  "fetchResultPackage jid format st =
     (case get_record jid st of
        Inl e \<Rightarrow> Inl e
      | Inr r \<Rightarrow>
          if jobStatus r = Finished then Inr (format, resultLocation r) else Inl NotReady)"

text \<open>
  Modelled from the spec: the diagnostic of the startup reconciliation of the missing
  runner (section 4.3).
\<close>

definition orphan_diagnostic :: string where
  "orphan_diagnostic = ''orphaned on restart: the prior process was not recoverable''"

text \<open>
  Modelled from the spec: the startup reconciliation of one record (section 4.3). When the
  runner starts no process is alive, so a record found running is an orphan.
\<close>

definition reconcile :: "int \<Rightarrow> JobRecord \<Rightarrow> JobRecord" where
  "reconcile now r =
     (if jobStatus r = Running
      then r\<lparr>jobStatus := Error, endedAt := Some now, errorDetail := Some orphan_diagnostic\<rparr>
      else r)"

text \<open>Modelled from the spec: the startup of the missing runner on the persisted store.\<close>

definition runner_startup :: "int \<Rightarrow> store \<Rightarrow> store" where
  "runner_startup now st = st\<lparr>records := map (reconcile now) (records st)\<rparr>"

text \<open>
  Modelled from the spec: a restart of the missing backend, the startup of the runner and
  then the submissions (identifier, artifact reference, time) in the order they arrive.
\<close>

definition restart :: "int \<Rightarrow> (string \<times> string \<times> int) list \<Rightarrow> store \<Rightarrow> store" where
  "restart now submissions st =
     foldl (\<lambda>st (jid, artifact, t). snd (submit jid artifact t st)) (runner_startup now st)
       submissions"

section \<open>Verification\<close>

subsection \<open>Console output\<close>

lemma ConsoleOutput_lines:
  "ConsoleOutput messages =
     (if messages = [] then None else Some (zip [1..<Suc (length messages)] messages))"
proof -
  have "map (\<lambda>(idx, msg). (idx + 1, msg)) (enumerate n xs) = zip [Suc n..<Suc (n + length xs)] xs"
    for n and xs :: "string list"
  proof (induction xs arbitrary: n)
    case Nil
    show ?case by simp
  next
    case (Cons x xs)
    have "[Suc n..<Suc (n + length (x # xs))] = Suc n # [Suc (Suc n)..<Suc (Suc n + length xs)]"
      by (subst upt_rec) simp
    with Cons [of "Suc n"] show ?case by simp
  qed
  from this [of 0 messages] show ?thesis by (simp add: ConsoleOutput_def)
qed

text \<open>
  A message that arrives on an open socket: a log message is appended once at the end of
  the console list, every other event leaves the list as it is.
\<close>

lemma ws_onmessage_appends:
  "task \<in> set (sockets c) \<Longrightarrow>
     consoleMessages (ws_onmessage task (Some m) c) =
       (if msg_type m = ''log'' then consoleMessages c @ [content m] else consoleMessages c)"
  "task \<in> set (sockets c) \<Longrightarrow> consoleMessages (ws_onmessage task None c) = consoleMessages c"
  by (simp_all add: ws_onmessage_def onmessage_def)

lemma consoleMessages_poll_callback:
  "consoleMessages (poll_callback t s now progress result c) = consoleMessages c"
  "sockets (poll_callback t s now progress result c) = sockets c"
  by (simp_all add: poll_callback_def clearInterval_def Let_def split: option.splits)

lemma consoleMessages_tick:
  "consoleMessages (tick h now progress result c) = consoleMessages c"
  "sockets (tick h now progress result c) = sockets c"
  by (simp_all add: tick_def consoleMessages_poll_callback split: option.splits interval.splits)

lemma consoleMessages_checkRunningJobs:
  "consoleMessages (checkRunningJobs getTime now response c) = consoleMessages c"
  "sockets (checkRunningJobs getTime now response c) = sockets c"
  by (simp_all add: checkRunningJobs_def startPolling_def setInterval_def Let_def
      split: option.splits)

lemma consoleMessages_upload:
  "consoleMessages (handleFileChange (Some name) response c) = consoleMessages c"
  "sockets (handleFileChange (Some name) response c) = sockets c"
  by (simp_all add: handleFileChange_def Let_def split: option.splits)

text \<open>
  As long as the console is not reset (no file is removed and no parsing is started), the
  console list grows by the log messages that arrive on the open sockets, in the order of
  their arrival.
\<close>

lemma console_messages_in_arrival_order:
  assumes "list_all (\<lambda>e. case e of FileChange file response \<Rightarrow> file \<noteq> None
                        | StartParsing startTime response \<Rightarrow> False | _ \<Rightarrow> True) events"
  shows "consoleMessages (app_run getTime events c) =
     consoleMessages c @
     concat (map (\<lambda>e. case e of
                        Message task (Some m) \<Rightarrow>
                          if task \<in> set (sockets c) \<and> msg_type m = ''log''
                          then [content m] else []
                      | _ \<Rightarrow> []) events)"
  using assms
proof (induction events arbitrary: c)
  case Nil
  show ?case by (simp add: app_run_def)
next
  case (Cons e events)
  have run: "app_run getTime (e # events) c = app_run getTime events (app_step getTime c e)"
    by (simp add: app_run_def)
  from Cons.prems have rest: "list_all (\<lambda>e. case e of FileChange file response \<Rightarrow> file \<noteq> None
      | StartParsing startTime response \<Rightarrow> False | _ \<Rightarrow> True) events"
    by simp
  from Cons.prems have step: "sockets (app_step getTime c e) = sockets c \<and>
      consoleMessages (app_step getTime c e) =
        consoleMessages c @
          (case e of
             Message task (Some m) \<Rightarrow>
               if task \<in> set (sockets c) \<and> msg_type m = ''log'' then [content m] else []
           | _ \<Rightarrow> [])"
  proof (cases e)
    case (CheckRunningJobs now response)
    then show ?thesis by (simp add: consoleMessages_checkRunningJobs)
  next
    case (FileChange f response)
    with Cons.prems obtain name where "f = Some name" by auto
    with FileChange show ?thesis by (simp add: consoleMessages_upload)
  next
    case (StartParsing startTime response)
    with Cons.prems show ?thesis by simp
  next
    case (Message task event)
    then show ?thesis
      by (cases event) (simp_all add: ws_onmessage_def onmessage_def)
  next
    case (Tick h now progress result)
    then show ?thesis by (simp add: consoleMessages_tick)
  qed
  from Cons.IH [OF rest, of "app_step getTime c e"] step show ?case
    unfolding run by simp
qed


subsection \<open>The job queue panel\<close>

lemma JobQueuePanel_None: "JobQueuePanel jobs = None \<longleftrightarrow> jobs = []"
  by (simp add: JobQueuePanel_def)

text \<open>
  Claim C10. With an empty job list the component returns \<^verbatim>\<open>null\<close>; whenever it renders
  the dropdown there is at least one job, and the section \<^verbatim>\<open>No recent jobs\<close> is not part
  of what is rendered.
\<close>

theorem JobQueuePanel_empty_state_unreachable:
  "JobQueuePanel [] = None \<and>
   (\<forall>jobs v. JobQueuePanel jobs = Some v \<longrightarrow> jobs \<noteq> [] \<and> NoRecentJobs \<notin> set (sections v))"
  by (auto simp: JobQueuePanel_def split: if_splits)

theorem JobQueuePanel_empty_state_unreachable_witness:
  "JobQueuePanel [\<lparr>task_id = ''t1'', filename = ''user_upload_1_2_ab.pdf'',
      original_filename = ''report.pdf'', timestamp = ''2025-01-01T10:00:00'',
      runtime = Some 12, status = ''finished'', elapsed = None, result_dir = ''out''\<rparr>]
     = Some \<lparr>trigger = JobsLabel,
         sections = [RecentSection False
           [(''t1'', Elem ''CheckCircle2'' ''h-3.5 w-3.5 text-emerald-500'' [], ''report.pdf'')]]\<rparr>
   \<and> NoRecentJobs \<notin> set [RecentSection False
           [(''t1'', Elem ''CheckCircle2'' ''h-3.5 w-3.5 text-emerald-500'' [], ''report.pdf'')]]"
proof -
  let ?jobs = "[\<lparr>task_id = ''t1'', filename = ''user_upload_1_2_ab.pdf'',
      original_filename = ''report.pdf'', timestamp = ''2025-01-01T10:00:00'',
      runtime = Some 12, status = ''finished'', elapsed = None, result_dir = ''out''\<rparr>]"
  let ?v = "\<lparr>trigger = JobsLabel,
         sections = [RecentSection False
           [(''t1'', Elem ''CheckCircle2'' ''h-3.5 w-3.5 text-emerald-500'' [], ''report.pdf'')]]\<rparr>"
  have r: "JobQueuePanel ?jobs = Some ?v"
    by (simp add: JobQueuePanel_def runningJobs_def recentJobs_def queueDisplayName_def
        getStatusIcon_def statusIconCases_def trim_def is_space_def)
  from JobQueuePanel_empty_state_unreachable have
    "JobQueuePanel ?jobs = Some ?v \<longrightarrow> ?jobs \<noteq> [] \<and> NoRecentJobs \<notin> set (sections ?v)"
    by blast
  with r show ?thesis by simp
qed

subsection \<open>The displayed name of a job\<close>

lemma trim_empty_iff: "trim s = [] \<longleftrightarrow> list_all is_space s"
proof -
  have "dropWhile is_space (rev (dropWhile is_space s)) = [] \<longleftrightarrow> dropWhile is_space s = []"
  proof
    assume a: "dropWhile is_space (rev (dropWhile is_space s)) = []"
    show "dropWhile is_space s = []"
    proof (rule ccontr)
      assume n: "dropWhile is_space s \<noteq> []"
      then have "\<not> is_space (hd (dropWhile is_space s))" by (rule hd_dropWhile)
      moreover from n have "hd (dropWhile is_space s) \<in> set (rev (dropWhile is_space s))" by simp
      moreover from a have "\<forall>x\<in>set (rev (dropWhile is_space s)). is_space x"
        by (simp only: dropWhile_eq_Nil_conv)
      ultimately show False by blast
    qed
  next
    assume "dropWhile is_space s = []"
    then show "dropWhile is_space (rev (dropWhile is_space s)) = []"
      by (simp del: dropWhile_eq_Nil_conv)
  qed
  then show ?thesis by (simp add: trim_def list_all_iff)
qed

lemma trim_nonempty: "trim s \<noteq> [] \<Longrightarrow> s \<noteq> []"
  by (auto simp: trim_def)

lemma rx_lits:
  "rx_match (map (\<lambda>p. One (ci p)) lit @ items) k s =
     (if length lit \<le> length s \<and> map canonicalize (take (length lit) s) = map canonicalize lit
      then rx_match items k (drop (length lit) s) else None)"
proof (induction lit arbitrary: s)
  case Nil
  then show ?case by simp
next
  case (Cons p lit)
  then show ?case by (cases s) (auto simp: ci_def)
qed

lemma rx_plus:
  assumes "\<And>c. q c \<Longrightarrow> \<not> p c"
  shows "rx_match (Plus p # One q # items) k s =
     (if takeWhile p s = [] then None else rx_match (One q # items) k (dropWhile p s))"
proof (induction s)
  case Nil
  then show ?case by simp
next
  case (Cons c cs)
  show ?case
  proof (cases "p c")
    case False
    then show ?thesis by simp
  next
    case True
    show ?thesis
    proof (cases "takeWhile p cs = []")
      case t: True
      then have "dropWhile p cs = cs" by (cases cs) (auto split: if_splits)
      with True t Cons show ?thesis by simp
    next
      case f: False
      then obtain d ds where cs: "cs = d # ds" and "p d" by (cases cs) (auto split: if_splits)
      with assms have "\<not> q d" by blast
      with cs have "rx_match (One q # items) k cs = None" by simp
      with True f Cons show ?thesis by (simp split: option.splits)
    qed
  qed
qed

lemma ci_underscore: "ci (CHR ''_'') c \<longleftrightarrow> c = CHR ''_''"
proof
  assume "ci (CHR ''_'') c"
  then have "(of_char c :: nat) = of_char (CHR ''_'')"
    by (simp add: ci_def canonicalize_def split: if_splits)
  then show "c = CHR ''_''" by (simp only: of_char_eq_iff)
qed (simp add: ci_def)

lemma ci_dot: "ci (CHR ''.'') c \<longleftrightarrow> c = CHR ''.''"
proof
  assume "ci (CHR ''.'') c"
  then have "(of_char c :: nat) = of_char (CHR ''.'')"
    by (simp add: ci_def canonicalize_def split: if_splits)
  then show "c = CHR ''.''" by (simp only: of_char_eq_iff)
qed (simp add: ci_def)

lemma rx_seg:
  assumes q: "\<And>c. q c \<longleftrightarrow> c = sep" and sep: "\<not> p sep"
  shows "rx_match (Plus p # One q # items) k s = Some r \<longleftrightarrow>
     (\<exists>d rest. s = d @ sep # rest \<and> d \<noteq> [] \<and> list_all p d \<and> rx_match items k rest = Some r)"
proof -
  have plus: "rx_match (Plus p # One q # items) k s =
     (if takeWhile p s = [] then None else rx_match (One q # items) k (dropWhile p s))"
    by (rule rx_plus) (use q sep in auto)
  show ?thesis
  proof
    assume m: "rx_match (Plus p # One q # items) k s = Some r"
    with plus have t: "takeWhile p s \<noteq> []"
      and o: "rx_match (One q # items) k (dropWhile p s) = Some r"
      by (auto split: if_splits)
    from o obtain c rest where dw: "dropWhile p s = c # rest" and "q c"
      and r: "rx_match items k rest = Some r"
      by (cases "dropWhile p s") (auto split: if_splits)
    with q have "c = sep" by simp
    with dw have "s = takeWhile p s @ sep # rest"
      by (metis takeWhile_dropWhile_id)
    moreover have "list_all p (takeWhile p s)"
      by (simp add: list_all_iff) (meson set_takeWhileD)
    ultimately show "\<exists>d rest. s = d @ sep # rest \<and> d \<noteq> [] \<and> list_all p d \<and> rx_match items k rest = Some r"
      using t r by blast
  next
    assume "\<exists>d rest. s = d @ sep # rest \<and> d \<noteq> [] \<and> list_all p d \<and> rx_match items k rest = Some r"
    then obtain d rest where s: "s = d @ sep # rest" and d: "d \<noteq> []" "list_all p d"
      and r: "rx_match items k rest = Some r" by blast
    from d sep have "takeWhile p s = d" "dropWhile p s = sep # rest"
      unfolding s by (simp_all add: list_all_iff takeWhile_append2 dropWhile_append2)
    with plus d r q show "rx_match (Plus p # One q # items) k s = Some r" by simp
  qed
qed

lemma rest_group_Some: "rest_group s = Some ext \<longleftrightarrow> s = ext \<and> ext \<noteq> [] \<and> list_all is_dot ext"
  by (auto simp: rest_group_def)

lemma not_digit_underscore: "\<not> is_digit (CHR ''_'')"
  by (simp add: is_digit_def)

lemma not_hex_dot: "\<not> is_hex (CHR ''.'')"
  by (simp add: is_hex_def is_digit_def canonicalize_def)

lemma match_upload_head:
  "match_upload s =
     (if 12 \<le> length s \<and> map canonicalize (take 12 s) = map canonicalize ''user_upload_''
      then rx_match [Plus is_digit, One (ci (CHR ''_'')), Plus is_digit, One (ci (CHR ''_'')),
        Plus is_hex, One (ci (CHR ''.''))] rest_group (drop 12 s) else None)"
proof -
  have len: "length ''user_upload_'' = 12"
    by simp
  show ?thesis
    by (simp only: match_upload_def upload_regex_def rx_lits len)
qed

lemma match_upload_tail:
  "rx_match [Plus is_digit, One (ci (CHR ''_'')), Plus is_digit, One (ci (CHR ''_'')),
      Plus is_hex, One (ci (CHR ''.''))] rest_group r = Some ext \<longleftrightarrow>
   (\<exists>d1 d2 h. r = d1 @ ''_'' @ d2 @ ''_'' @ h @ ''.'' @ ext \<and>
        d1 \<noteq> [] \<and> list_all is_digit d1 \<and>
        d2 \<noteq> [] \<and> list_all is_digit d2 \<and>
        h \<noteq> [] \<and> list_all is_hex h \<and>
        ext \<noteq> [] \<and> list_all is_dot ext)"
proof -
  have u: "rx_match (Plus is_digit # One (ci (CHR ''_'')) # items) k s = Some x \<longleftrightarrow>
     (\<exists>d rest. s = d @ CHR ''_'' # rest \<and> d \<noteq> [] \<and> list_all is_digit d \<and>
        rx_match items k rest = Some x)" for items and k :: "string \<Rightarrow> string option" and s x
    by (rule rx_seg) (simp_all add: ci_underscore not_digit_underscore)
  have d: "rx_match (Plus is_hex # One (ci (CHR ''.'')) # items) k s = Some x \<longleftrightarrow>
     (\<exists>d rest. s = d @ CHR ''.'' # rest \<and> d \<noteq> [] \<and> list_all is_hex d \<and>
        rx_match items k rest = Some x)" for items and k :: "string \<Rightarrow> string option" and s x
    by (rule rx_seg) (simp_all add: ci_dot not_hex_dot)
  show ?thesis
    unfolding u d rx_match.simps(1) rest_group_Some
  proof
    assume "\<exists>d1 d2 h. r = d1 @ ''_'' @ d2 @ ''_'' @ h @ ''.'' @ ext \<and>
        d1 \<noteq> [] \<and> list_all is_digit d1 \<and>
        d2 \<noteq> [] \<and> list_all is_digit d2 \<and>
        h \<noteq> [] \<and> list_all is_hex h \<and>
        ext \<noteq> [] \<and> list_all is_dot ext"
    then obtain d1 d2 h where r: "r = d1 @ CHR ''_'' # (d2 @ CHR ''_'' # (h @ CHR ''.'' # ext))"
      and c: "d1 \<noteq> []" "list_all is_digit d1" "d2 \<noteq> []" "list_all is_digit d2"
        "h \<noteq> []" "list_all is_hex h" "ext \<noteq> []" "list_all is_dot ext"
      by auto
    show "\<exists>d rest. r = d @ CHR ''_'' # rest \<and> d \<noteq> [] \<and> list_all is_digit d \<and>
       (\<exists>d resta. rest = d @ CHR ''_'' # resta \<and> d \<noteq> [] \<and> list_all is_digit d \<and>
          (\<exists>d rest. resta = d @ CHR ''.'' # rest \<and> d \<noteq> [] \<and> list_all is_hex d \<and>
             rest = ext \<and> ext \<noteq> [] \<and> list_all is_dot ext))"
      unfolding r using c by blast
  qed auto
qed

lemma match_upload_iff: "match_upload s = Some ext \<longleftrightarrow> upload_pattern s ext"
proof
  assume a: "match_upload s = Some ext"
  then have l: "map canonicalize (take 12 s) = map canonicalize ''user_upload_''"
    and t: "rx_match [Plus is_digit, One (ci (CHR ''_'')), Plus is_digit, One (ci (CHR ''_'')),
      Plus is_hex, One (ci (CHR ''.''))] rest_group (drop 12 s) = Some ext"
    unfolding match_upload_head by (simp_all split: if_splits)
  from t [unfolded match_upload_tail]
  obtain d1 d2 h where dr: "drop 12 s = d1 @ ''_'' @ d2 @ ''_'' @ h @ ''.'' @ ext"
    and rest: "d1 \<noteq> [] \<and> list_all is_digit d1 \<and> d2 \<noteq> [] \<and> list_all is_digit d2 \<and>
      h \<noteq> [] \<and> list_all is_hex h \<and> ext \<noteq> [] \<and> list_all is_dot ext"
    by (elim exE conjE) (rule that, assumption, intro conjI)
  have "s = take 12 s @ drop 12 s" by simp
  then have "s = take 12 s @ d1 @ ''_'' @ d2 @ ''_'' @ h @ ''.'' @ ext"
    unfolding dr .
  with l rest show "upload_pattern s ext"
    unfolding upload_pattern_def
    by (intro exI [of _ "take 12 s"] exI [of _ d1] exI [of _ d2] exI [of _ h] conjI)
      (elim conjE, assumption)+
next
  assume "upload_pattern s ext"
  then obtain p d1 d2 h where s: "s = p @ d1 @ ''_'' @ d2 @ ''_'' @ h @ ''.'' @ ext"
    and p: "map canonicalize p = map canonicalize ''user_upload_''"
    and rest: "d1 \<noteq> [] \<and> list_all is_digit d1 \<and> d2 \<noteq> [] \<and> list_all is_digit d2 \<and>
      h \<noteq> [] \<and> list_all is_hex h \<and> ext \<noteq> [] \<and> list_all is_dot ext"
    unfolding upload_pattern_def
    by (elim exE conjE) (rule that, assumption, assumption, intro conjI)
  have "length (map canonicalize p) = length (map canonicalize ''user_upload_'')"
    by (simp only: p)
  then have len: "length p = 12" by simp
  have 1: "12 \<le> length s" unfolding s using len by simp
  have 2: "take 12 s = p" unfolding s using len by simp
  have 3: "drop 12 s = d1 @ ''_'' @ d2 @ ''_'' @ h @ ''.'' @ ext" unfolding s using len by simp
  have "\<exists>d1' d2' h'. d1 @ ''_'' @ d2 @ ''_'' @ h @ ''.'' @ ext = d1' @ ''_'' @ d2' @ ''_'' @ h' @ ''.'' @ ext \<and>
        d1' \<noteq> [] \<and> list_all is_digit d1' \<and>
        d2' \<noteq> [] \<and> list_all is_digit d2' \<and>
        h' \<noteq> [] \<and> list_all is_hex h' \<and>
        ext \<noteq> [] \<and> list_all is_dot ext"
    using rest by (intro exI [of _ d1] exI [of _ d2] exI [of _ h] conjI refl) (elim conjE, assumption)+
  then have "rx_match [Plus is_digit, One (ci (CHR ''_'')), Plus is_digit,
      One (ci (CHR ''_'')), Plus is_hex, One (ci (CHR ''.''))] rest_group
      (d1 @ ''_'' @ d2 @ ''_'' @ h @ ''.'' @ ext) = Some ext"
    by (simp only: match_upload_tail)
  then show "match_upload s = Some ext"
    unfolding match_upload_head 2 3 using 1 p by (simp only: if_True simp_thms)
qed

lemma upload_pattern_not_blank: "upload_pattern s ext \<Longrightarrow> trim s \<noteq> []"
proof -
  assume "upload_pattern s ext"
  then obtain p r where s: "s = p @ r"
    and p: "map canonicalize p = map canonicalize ''user_upload_''"
    unfolding upload_pattern_def by (elim exE conjE) (rule that, assumption, assumption)
  from p obtain c cs where pc: "p = c # cs" and c: "canonicalize c = canonicalize (CHR ''u'')"
    by (cases p) simp_all
  have "\<not> is_space c"
    using c by (auto simp: is_space_def canonicalize_def split: if_splits)
  with s pc show ?thesis by (auto simp: trim_empty_iff)
qed

text \<open>
  Claim C8, as amended. The displayed name of a job is its original filename when that
  is not empty after trimming; otherwise \<^verbatim>\<open>Document.<ext>\<close> when the stored filename
  matches the upload pattern \<^verbatim>\<open>user_upload_<digits>_<digits>_<hex>.<ext>\<close> (in either
  case, the extension on one line); otherwise the stored filename when it is not empty
  after trimming; otherwise \<^verbatim>\<open>Task <task_id>\<close>.
\<close>

theorem getDisplayName_fallback:
  "(trim (original_filename j) \<noteq> [] \<longrightarrow> getDisplayName j = original_filename j) \<and>
   (trim (original_filename j) = [] \<and> upload_pattern (filename j) ext \<longrightarrow>
      getDisplayName j = ''Document.'' @ ext) \<and>
   (trim (original_filename j) = [] \<and> (\<forall>e. \<not> upload_pattern (filename j) e) \<and>
      trim (filename j) \<noteq> [] \<longrightarrow> getDisplayName j = filename j) \<and>
   (trim (original_filename j) = [] \<and> trim (filename j) = [] \<longrightarrow>
      getDisplayName j = ''Task '' @ task_id j)"
proof (intro conjI impI)
  assume a: "trim (original_filename j) \<noteq> []"
  then have "original_filename j \<noteq> []" by (rule trim_nonempty)
  with a show "getDisplayName j = original_filename j"
    by (simp add: getDisplayName_def)
next
  assume a: "trim (original_filename j) = [] \<and> upload_pattern (filename j) ext"
  then have "match_upload (filename j) = Some ext" by (simp add: match_upload_iff)
  moreover from a have "upload_pattern (filename j) ext" by (rule conjunct2)
  then have "trim (filename j) \<noteq> []" by (rule upload_pattern_not_blank)
  moreover from this have "filename j \<noteq> []" by (rule trim_nonempty)
  ultimately show "getDisplayName j = ''Document.'' @ ext"
    using a by (simp add: getDisplayName_def)
next
  assume a: "trim (original_filename j) = [] \<and> (\<forall>e. \<not> upload_pattern (filename j) e) \<and>
      trim (filename j) \<noteq> []"
  then have "match_upload (filename j) = None"
    by (cases "match_upload (filename j)") (simp_all add: match_upload_iff)
  moreover from a have "filename j \<noteq> []" by (simp add: trim_nonempty)
  ultimately show "getDisplayName j = filename j"
    using a by (simp add: getDisplayName_def)
next
  assume "trim (original_filename j) = [] \<and> trim (filename j) = []"
  then show "getDisplayName j = ''Task '' @ task_id j"
    by (simp add: getDisplayName_def)
qed

lemma match_upload_example:
  "match_upload ''User_Upload_20250101_093000_3fA9.tar.gz'' = Some ''tar.gz''"
  by (simp add: match_upload_def upload_regex_def ci_def canonicalize_def is_digit_def
      is_hex_def rest_group_def is_dot_def)

lemma match_upload_example_none: "match_upload ''notes.txt'' = None"
  by (simp add: match_upload_def upload_regex_def ci_def canonicalize_def)

text \<open>The four branches at four concrete jobs.\<close>

theorem getDisplayName_fallback_witness:
  "getDisplayName \<lparr>task_id = ''41'', filename = ''user_upload_1_2_ab.pdf'',
      original_filename = ''report.pdf'', timestamp = '''', runtime = None,
      status = ''finished'', elapsed = None, result_dir = ''''\<rparr> = ''report.pdf'' \<and>
   upload_pattern ''User_Upload_20250101_093000_3fA9.tar.gz'' ''tar.gz'' \<and>
   getDisplayName \<lparr>task_id = ''42'', filename = ''User_Upload_20250101_093000_3fA9.tar.gz'',
      original_filename = ''  '', timestamp = '''', runtime = None,
      status = ''finished'', elapsed = None, result_dir = ''''\<rparr> = ''Document.tar.gz'' \<and>
   (\<forall>e. \<not> upload_pattern ''notes.txt'' e) \<and>
   getDisplayName \<lparr>task_id = ''43'', filename = ''notes.txt'',
      original_filename = '''', timestamp = '''', runtime = None,
      status = ''error'', elapsed = None, result_dir = ''''\<rparr> = ''notes.txt'' \<and>
   getDisplayName \<lparr>task_id = ''44'', filename = '' '',
      original_filename = '''', timestamp = '''', runtime = None,
      status = ''running'', elapsed = None, result_dir = ''''\<rparr> = ''Task 44''"
proof -
  let ?j1 = "\<lparr>task_id = ''41'', filename = ''user_upload_1_2_ab.pdf'',
      original_filename = ''report.pdf'', timestamp = '''', runtime = None,
      status = ''finished'', elapsed = None, result_dir = ''''\<rparr>"
  let ?j2 = "\<lparr>task_id = ''42'', filename = ''User_Upload_20250101_093000_3fA9.tar.gz'',
      original_filename = ''  '', timestamp = '''', runtime = None,
      status = ''finished'', elapsed = None, result_dir = ''''\<rparr>"
  let ?j3 = "\<lparr>task_id = ''43'', filename = ''notes.txt'',
      original_filename = '''', timestamp = '''', runtime = None,
      status = ''error'', elapsed = None, result_dir = ''''\<rparr>"
  let ?j4 = "\<lparr>task_id = ''44'', filename = '' '',
      original_filename = '''', timestamp = '''', runtime = None,
      status = ''running'', elapsed = None, result_dir = ''''\<rparr>"
  have t1: "trim ''report.pdf'' \<noteq> []" by (simp add: trim_def is_space_def)
  have t2: "trim ''  '' = []" by (simp add: trim_def is_space_def)
  have t0: "trim '''' = []" by (simp add: trim_def)
  have t3: "trim ''notes.txt'' \<noteq> []" by (simp add: trim_def is_space_def)
  have t4: "trim '' '' = []" by (simp add: trim_def is_space_def)
  have p2: "upload_pattern ''User_Upload_20250101_093000_3fA9.tar.gz'' ''tar.gz''"
    using match_upload_example by (simp only: match_upload_iff)
  have p3: "\<forall>e. \<not> upload_pattern ''notes.txt'' e"
    using match_upload_example_none by (simp add: match_upload_iff [symmetric])
  from getDisplayName_fallback [of ?j1] t1 have 1: "getDisplayName ?j1 = ''report.pdf''"
    by simp
  from getDisplayName_fallback [of ?j2 "''tar.gz''"] t2 p2
  have 2: "getDisplayName ?j2 = ''Document.tar.gz''"
    by simp
  from getDisplayName_fallback [of ?j3] t0 t3 p3 have 3: "getDisplayName ?j3 = ''notes.txt''"
    by simp
  from getDisplayName_fallback [of ?j4] t0 t4 have 4: "getDisplayName ?j4 = ''Task 44''"
    by simp
  from 1 2 3 4 p2 p3 show ?thesis by (intro conjI)
qed

text \<open>
  The claim as first stated takes the stored filename whenever it is not empty. A stored
  filename of one blank is not empty, and the job is shown as \<^verbatim>\<open>Task 42\<close>.
\<close>

theorem getDisplayName_blank_filename_counterexample:
  "getDisplayName \<lparr>task_id = ''42'', filename = '' '', original_filename = '''',
      timestamp = ''2025-01-01T10:00:00'', runtime = None, status = ''finished'',
      elapsed = None, result_dir = ''''\<rparr> = ''Task 42'' \<and>
   \<not> (\<forall>j. getDisplayName j =
      (if trim (original_filename j) \<noteq> [] then original_filename j
       else case match_upload (filename j) of
              Some ext \<Rightarrow> ''Document.'' @ ext
            | None \<Rightarrow> if filename j \<noteq> [] then filename j else ''Task '' @ task_id j))"
proof -
  let ?j = "\<lparr>task_id = ''42'', filename = '' '', original_filename = '''',
      timestamp = ''2025-01-01T10:00:00'', runtime = None, status = ''finished'',
      elapsed = None, result_dir = ''''\<rparr>"
  have m: "match_upload '' '' = None"
    by (simp add: match_upload_def upload_regex_def ci_def canonicalize_def)
  have g: "getDisplayName ?j = ''Task 42''"
    by (simp add: getDisplayName_def trim_def is_space_def)
  have "getDisplayName ?j \<noteq>
      (if trim (original_filename ?j) \<noteq> [] then original_filename ?j
       else case match_upload (filename ?j) of
              Some ext \<Rightarrow> ''Document.'' @ ext
            | None \<Rightarrow> if filename ?j \<noteq> [] then filename ?j else ''Task '' @ task_id ?j)"
    unfolding g by (simp add: m trim_def)
  then have "\<not> (\<forall>j. getDisplayName j =
      (if trim (original_filename j) \<noteq> [] then original_filename j
       else case match_upload (filename j) of
              Some ext \<Rightarrow> ''Document.'' @ ext
            | None \<Rightarrow> if filename j \<noteq> [] then filename j else ''Task '' @ task_id j))"
    by (intro notI) (erule notE, erule allE)
  with g show ?thesis by (rule conjI)
qed

subsection \<open>Status icons and badges\<close>

lemma status_icons_distinct: "distinct (map getStatusIcon status_values)"
  by (simp add: status_values_def getStatusIcon_def statusIconCases_def defaultStatusIcon_def)

lemma status_badges_distinct: "distinct (map getStatusBadge status_values)"
  by (simp add: status_values_def getStatusBadge_def statusBadgeCases_def defaultStatusBadge_def)

lemma getStatusIcon_default:
  "s \<notin> set (map fst statusIconCases) \<Longrightarrow> getStatusIcon s = defaultStatusIcon"
  by (simp add: getStatusIcon_def map_of_eq_None_iff [THEN iffD2])

lemma getStatusBadge_default:
  "s \<notin> set (map fst statusBadgeCases) \<Longrightarrow> getStatusBadge s = defaultStatusBadge s"
  by (simp add: getStatusBadge_def map_of_eq_None_iff [THEN iffD2])

text \<open>
  Claim C9, as amended. The five status values are rendered by pairwise different icons
  and pairwise different badges. The values running, finished, error and cancelled have a
  case of their own in both switches; every other status string, \<^verbatim>\<open>pending\<close> among them,
  is rendered by the default branch: the same gray alert icon for all of them, and a gray
  badge showing the status string itself.
\<close>

theorem status_representations:
  "distinct (map getStatusIcon status_values) \<and>
   distinct (map getStatusBadge status_values) \<and>
   map fst statusIconCases = [''running'', ''finished'', ''error'', ''cancelled''] \<and>
   map fst statusBadgeCases = [''finished'', ''running'', ''error'', ''cancelled''] \<and>
   (\<forall>s. s \<notin> {''running'', ''finished'', ''error'', ''cancelled''} \<longrightarrow>
      getStatusIcon s = defaultStatusIcon \<and> getStatusBadge s = defaultStatusBadge s)"
proof -
  have i: "map fst statusIconCases = [''running'', ''finished'', ''error'', ''cancelled'']"
    by (simp add: statusIconCases_def)
  have b: "map fst statusBadgeCases = [''finished'', ''running'', ''error'', ''cancelled'']"
    by (simp add: statusBadgeCases_def)
  have "getStatusIcon s = defaultStatusIcon \<and> getStatusBadge s = defaultStatusBadge s"
    if "s \<notin> {''running'', ''finished'', ''error'', ''cancelled''}" for s
  proof
    from that have "s \<notin> set (map fst statusIconCases)" unfolding i by simp
    then show "getStatusIcon s = defaultStatusIcon" by (rule getStatusIcon_default)
    from that have "s \<notin> set (map fst statusBadgeCases)" unfolding b by auto
    then show "getStatusBadge s = defaultStatusBadge s" by (rule getStatusBadge_default)
  qed
  then have "\<forall>s. s \<notin> {''running'', ''finished'', ''error'', ''cancelled''} \<longrightarrow>
      getStatusIcon s = defaultStatusIcon \<and> getStatusBadge s = defaultStatusBadge s"
    by (intro allI impI)
  with status_icons_distinct status_badges_distinct i b show ?thesis by (intro conjI)
qed

theorem status_representations_witness:
  "''pending'' \<notin> {''running'', ''finished'', ''error'', ''cancelled''} \<and>
   getStatusIcon ''pending'' = defaultStatusIcon \<and>
   getStatusBadge ''pending'' = defaultStatusBadge ''pending'' \<and>
   getStatusIcon ''pending'' = getStatusIcon ''queued''"
proof -
  have p: "''pending'' \<notin> {''running'', ''finished'', ''error'', ''cancelled''}" by simp
  have q: "''queued'' \<notin> {''running'', ''finished'', ''error'', ''cancelled''}" by simp
  note d = status_representations [THEN conjunct2, THEN conjunct2, THEN conjunct2,
      THEN conjunct2, rule_format]
  from d [OF p] have 1: "getStatusIcon ''pending'' = defaultStatusIcon"
    and 2: "getStatusBadge ''pending'' = defaultStatusBadge ''pending''"
    by (rule conjunct1, rule conjunct2)
  from d [OF q] have 3: "getStatusIcon ''queued'' = defaultStatusIcon"
    by (rule conjunct1)
  from 1 3 have "getStatusIcon ''pending'' = getStatusIcon ''queued''" by (rule trans [OF _ sym])
  with p 1 2 show ?thesis by (intro conjI)
qed

text \<open>
  The claim as first stated: pairwise different representations, and none of the five
  values handled by the default branch. The value \<^verbatim>\<open>pending\<close> has no case.
\<close>

theorem pending_has_no_case_counterexample:
  "\<not> ((\<forall>s\<in>set status_values. \<forall>t\<in>set status_values. s \<noteq> t \<longrightarrow>
          getStatusIcon s \<noteq> getStatusIcon t \<and> getStatusBadge s \<noteq> getStatusBadge t) \<and>
       (\<forall>s\<in>set status_values.
          s \<in> set (map fst statusIconCases) \<and> s \<in> set (map fst statusBadgeCases)))"
proof -
  have v: "''pending'' \<in> set status_values" by (simp add: status_values_def)
  have n: "''pending'' \<notin> set (map fst statusIconCases)"
    by (simp add: statusIconCases_def)
  show ?thesis
  proof (intro notI, elim conjE)
    assume "\<forall>s\<in>set status_values.
          s \<in> set (map fst statusIconCases) \<and> s \<in> set (map fst statusBadgeCases)"
    then have "''pending'' \<in> set (map fst statusIconCases)"
      using v by (elim ballE conjE) (assumption, erule notE, assumption)
    with n show False by (rule notE)
  qed
qed

subsection \<open>Sorting the job lists\<close>

lemma mset_insert_by: "mset (insert_by cmp x ys) = add_mset x (mset ys)"
  by (induction ys) simp_all

lemma array_sort_Cons: "array_sort cmp (x # xs) = insert_by cmp x (array_sort cmp xs)"
  by (simp add: array_sort_def)

lemma mset_array_sort: "mset (array_sort cmp xs) = mset xs"
  by (induction xs) (simp_all add: array_sort_def mset_insert_by)

lemma set_insert_by: "set (insert_by cmp x ys) = insert x (set ys)"
  by (induction ys) auto

lemma set_array_sort: "set (array_sort cmp xs) = set xs"
  by (induction xs) (simp_all add: array_sort_def set_insert_by)

text \<open>
  A comparator that is consistent on a set of elements: on them it decides a total
  preorder \<open>R\<close>. The sorted list is then in the order \<open>R\<close>.
\<close>

lemma sorted_wrt_insert_by:
  assumes cmp: "\<And>a b. a \<in> A \<Longrightarrow> b \<in> A \<Longrightarrow> not_after (cmp a b) \<longleftrightarrow> R a b"
    and total: "\<And>a b. a \<in> A \<Longrightarrow> b \<in> A \<Longrightarrow> R a b \<or> R b a"
    and trans: "\<And>a b c. a \<in> A \<Longrightarrow> b \<in> A \<Longrightarrow> c \<in> A \<Longrightarrow> R a b \<Longrightarrow> R b c \<Longrightarrow> R a c"
    and x: "x \<in> A" and ys: "set ys \<subseteq> A" and sorted: "sorted_wrt R ys"
  shows "sorted_wrt R (insert_by cmp x ys)"
  using ys sorted
proof (induction ys)
  case Nil
  then show ?case by simp
next
  case (Cons y ys)
  from Cons.prems have y: "y \<in> A" and ys: "set ys \<subseteq> A"
    and y_ys: "\<forall>z\<in>set ys. R y z" and sorted: "sorted_wrt R ys"
    by simp_all
  show ?case
  proof (cases "not_after (cmp x y)")
    case True
    with cmp [OF x y] have xy: "R x y" by simp
    have "R x z" if "z \<in> set ys" for z
    proof -
      from that ys have z: "z \<in> A" by auto
      from that y_ys have "R y z" by simp
      with xy show ?thesis by (rule trans [OF x y z])
    qed
    with True xy Cons.prems show ?thesis by simp
  next
    case False
    with cmp [OF x y] have "\<not> R x y" by simp
    with total [OF x y] have "R y x" by simp
    moreover have "sorted_wrt R (insert_by cmp x ys)"
      using ys sorted by (rule Cons.IH)
    ultimately show ?thesis
      using False y_ys by (simp add: set_insert_by)
  qed
qed

lemma sorted_wrt_array_sort:
  assumes cmp: "\<And>a b. a \<in> set xs \<Longrightarrow> b \<in> set xs \<Longrightarrow> not_after (cmp a b) \<longleftrightarrow> R a b"
    and total: "\<And>a b. a \<in> set xs \<Longrightarrow> b \<in> set xs \<Longrightarrow> R a b \<or> R b a"
    and trans: "\<And>a b c. a \<in> set xs \<Longrightarrow> b \<in> set xs \<Longrightarrow> c \<in> set xs \<Longrightarrow>
                  R a b \<Longrightarrow> R b c \<Longrightarrow> R a c"
  shows "sorted_wrt R (array_sort cmp xs)"
proof -
  have "sorted_wrt R (array_sort cmp zs)" if "set zs \<subseteq> set xs" for zs
    using that
  proof (induction zs)
    case Nil
    show ?case by (simp add: array_sort_def)
  next
    case (Cons z zs)
    from Cons.prems have z: "z \<in> set xs" and zs: "set zs \<subseteq> set xs" by simp_all
    from zs have sub: "set (array_sort cmp zs) \<subseteq> set xs" by (simp add: set_array_sort)
    from zs have "sorted_wrt R (array_sort cmp zs)" by (rule Cons.IH)
    with cmp total trans z sub have "sorted_wrt R (insert_by cmp z (array_sort cmp zs))"
      by (rule sorted_wrt_insert_by [where A = "set xs"])
    then show ?case by (simp only: array_sort_Cons)
  qed
  then show ?thesis by simp
qed

text \<open>
  The sort is stable: the elements of a class \<open>P\<close> whose members the comparator does not
  put after one another keep their order.
\<close>

lemma filter_insert_by:
  assumes "\<And>y. y \<in> set ys \<Longrightarrow> P x \<Longrightarrow> P y \<Longrightarrow> not_after (cmp x y)"
  shows "filter P (insert_by cmp x ys) = (if P x then x # filter P ys else filter P ys)"
  using assms
proof (induction ys)
  case Nil
  show ?case by simp
next
  case (Cons y ys)
  have IH: "filter P (insert_by cmp x ys) = (if P x then x # filter P ys else filter P ys)"
    by (rule Cons.IH) (simp add: Cons.prems)
  show ?case
  proof (cases "not_after (cmp x y)")
    case True
    then show ?thesis by simp
  next
    case False
    with Cons.prems [of y] have "\<not> (P x \<and> P y)" by auto
    with False IH show ?thesis by auto
  qed
qed

lemma filter_array_sort:
  assumes "\<And>x y. x \<in> set xs \<Longrightarrow> y \<in> set xs \<Longrightarrow> P x \<Longrightarrow> P y \<Longrightarrow> not_after (cmp x y)"
  shows "filter P (array_sort cmp xs) = filter P xs"
proof -
  have "filter P (array_sort cmp zs) = filter P zs" if "set zs \<subseteq> set xs" for zs
    using that
  proof (induction zs)
    case Nil
    show ?case by (simp add: array_sort_def)
  next
    case (Cons z zs)
    from Cons.prems have z: "z \<in> set xs" and zs: "set zs \<subseteq> set xs" by simp_all
    have "filter P (insert_by cmp z (array_sort cmp zs)) =
        (if P z then z # filter P (array_sort cmp zs) else filter P (array_sort cmp zs))"
    proof (rule filter_insert_by)
      fix y assume "y \<in> set (array_sort cmp zs)" and "P z" and "P y"
      with zs have "y \<in> set xs" by (auto simp: set_array_sort)
      with z show "not_after (cmp z y)" using \<open>P z\<close> \<open>P y\<close> by (rule assms)
    qed
    with Cons.IH [OF zs] show ?case by (simp add: array_sort_Cons)
  qed
  then show ?thesis by simp
qed

lemma not_after_js_minus: "not_after (js_minus (Num a) (Num b)) \<longleftrightarrow> a \<le> b"
  by (simp add: not_after_def)

lemma js_le_Num: "v \<noteq> NaN \<Longrightarrow> w \<noteq> NaN \<Longrightarrow> js_le v w \<longleftrightarrow> not_after (js_minus v w)"
  by (cases v; cases w) (simp_all add: not_after_def)

lemma js_le_total: "v \<noteq> NaN \<Longrightarrow> w \<noteq> NaN \<Longrightarrow> js_le v w \<or> js_le w v"
  by (cases v; cases w) auto

lemma js_le_trans: "js_le u v \<Longrightarrow> js_le v w \<Longrightarrow> js_le u w"
  by (cases u; cases v; cases w) auto

lemma js_le_refl: "v \<noteq> NaN \<Longrightarrow> js_le v v"
  by (cases v) auto

text \<open>Sorting by a key that is a number on every element of the list, ascending.\<close>

lemma array_sort_ascending:
  assumes "list_all (\<lambda>x. key x \<noteq> NaN) xs"
  shows "sorted_wrt (\<lambda>a b. js_le (key a) (key b)) (array_sort (\<lambda>a b. js_minus (key a) (key b)) xs)"
    and "filter (\<lambda>x. key x = k) (array_sort (\<lambda>a b. js_minus (key a) (key b)) xs) =
         filter (\<lambda>x. key x = k) xs"
proof -
  from assms have num: "key x \<noteq> NaN" if "x \<in> set xs" for x
    using that by (simp add: list_all_iff)
  show "sorted_wrt (\<lambda>a b. js_le (key a) (key b)) (array_sort (\<lambda>a b. js_minus (key a) (key b)) xs)"
  proof (rule sorted_wrt_array_sort)
    fix a b assume "a \<in> set xs" "b \<in> set xs"
    then have ab: "key a \<noteq> NaN" "key b \<noteq> NaN" by (simp_all add: num)
    then show "not_after (js_minus (key a) (key b)) \<longleftrightarrow> js_le (key a) (key b)"
      by (simp add: js_le_Num)
    from ab show "js_le (key a) (key b) \<or> js_le (key b) (key a)" by (rule js_le_total)
  next
    fix a b c assume "js_le (key a) (key b)" "js_le (key b) (key c)"
    then show "js_le (key a) (key c)" by (rule js_le_trans)
  qed
  show "filter (\<lambda>x. key x = k) (array_sort (\<lambda>a b. js_minus (key a) (key b)) xs) =
      filter (\<lambda>x. key x = k) xs"
  proof (rule filter_array_sort)
    fix x y assume "x \<in> set xs" and "key x = k" and "key y = k"
    with num [of x] have "key x \<noteq> NaN" and "key y = key x" by auto
    then show "not_after (js_minus (key x) (key y))"
      by (cases "key x") (simp_all add: not_after_def)
  qed
qed

text \<open>The same, descending.\<close>

lemma array_sort_descending:
  assumes "list_all (\<lambda>x. key x \<noteq> NaN) xs"
  shows "sorted_wrt (\<lambda>a b. js_le (key b) (key a)) (array_sort (\<lambda>a b. js_minus (key b) (key a)) xs)"
    and "filter (\<lambda>x. key x = k) (array_sort (\<lambda>a b. js_minus (key b) (key a)) xs) =
         filter (\<lambda>x. key x = k) xs"
proof -
  from assms have num: "key x \<noteq> NaN" if "x \<in> set xs" for x
    using that by (simp add: list_all_iff)
  show "sorted_wrt (\<lambda>a b. js_le (key b) (key a)) (array_sort (\<lambda>a b. js_minus (key b) (key a)) xs)"
  proof (rule sorted_wrt_array_sort)
    fix a b assume "a \<in> set xs" "b \<in> set xs"
    then have ab: "key b \<noteq> NaN" "key a \<noteq> NaN" by (simp_all add: num)
    then show "not_after (js_minus (key b) (key a)) \<longleftrightarrow> js_le (key b) (key a)"
      by (simp add: js_le_Num)
    from ab show "js_le (key b) (key a) \<or> js_le (key a) (key b)" by (rule js_le_total)
  next
    fix a b c assume "js_le (key b) (key a)" "js_le (key c) (key b)"
    then show "js_le (key c) (key a)" by (rule js_le_trans [rotated])
  qed
  show "filter (\<lambda>x. key x = k) (array_sort (\<lambda>a b. js_minus (key b) (key a)) xs) =
      filter (\<lambda>x. key x = k) xs"
  proof (rule filter_array_sort)
    fix x y assume "x \<in> set xs" and "key x = k" and "key y = k"
    with num [of x] have "key x \<noteq> NaN" and "key y = key x" by auto
    then show "not_after (js_minus (key y) (key x))"
      by (cases "key x") (simp_all add: not_after_def)
  qed
qed

lemma statusOrder_Num:
  "s \<notin> set inherited_members \<Longrightarrow> statusOrder s \<noteq> NaN"
  by (simp add: statusOrder_def split: option.splits)

lemma statusOrder_running: "js_le (statusOrder s) (Num 0) \<longleftrightarrow> s = ''running''"
  by (simp add: statusOrder_def inherited_members_def)

lemma statusOrder_nonneg: "s \<notin> set inherited_members \<Longrightarrow> js_le (Num 0) (statusOrder s)"
  by (simp add: statusOrder_def)

lemma running_first:
  assumes "js_le (statusOrder (status a)) (statusOrder (status b))"
  shows "status a = ''running'' \<or> status b \<noteq> ''running''"
proof (cases "status b = ''running''")
  case True
  then have "statusOrder (status b) = Num 0" by (simp add: statusOrder_def)
  with assms have "js_le (statusOrder (status a)) (Num 0)" by simp
  then have "status a = ''running''" by (simp only: statusOrder_running)
  then show ?thesis by (rule disjI1)
next
  case False
  then show ?thesis by simp
qed

lemma sortedJobs_Runtime:
  "sorted_wrt (\<lambda>a b. runtime_or_0 b \<le> runtime_or_0 a) (sortedJobs getTime Runtime jobs)"
  "filter (\<lambda>j. runtime_or_0 j = r) (sortedJobs getTime Runtime jobs) =
   filter (\<lambda>j. runtime_or_0 j = r) jobs"
proof -
  show "sorted_wrt (\<lambda>a b. runtime_or_0 b \<le> runtime_or_0 a) (sortedJobs getTime Runtime jobs)"
    unfolding sortedJobs_def SortOption.case
    by (rule sorted_wrt_array_sort) (auto simp: not_after_def)
  show "filter (\<lambda>j. runtime_or_0 j = r) (sortedJobs getTime Runtime jobs) =
      filter (\<lambda>j. runtime_or_0 j = r) jobs"
    unfolding sortedJobs_def SortOption.case
    by (rule filter_array_sort) (simp add: not_after_def)
qed

lemma sortedJobs_Status:
  assumes "list_all (\<lambda>j. status j \<notin> set inherited_members) jobs"
  shows "sorted_wrt (\<lambda>a b. js_le (statusOrder (status a)) (statusOrder (status b)))
           (sortedJobs getTime Status jobs)"
    and "sorted_wrt (\<lambda>a b. status a = ''running'' \<or> status b \<noteq> ''running'')
           (sortedJobs getTime Status jobs)"
    and "filter (\<lambda>j. statusOrder (status j) = r) (sortedJobs getTime Status jobs) =
         filter (\<lambda>j. statusOrder (status j) = r) jobs"
proof -
  from assms have num: "list_all (\<lambda>j. statusOrder (status j) \<noteq> NaN) jobs"
    by (simp add: list_all_iff statusOrder_Num)
  from num show rank: "sorted_wrt (\<lambda>a b. js_le (statusOrder (status a)) (statusOrder (status b)))
      (sortedJobs getTime Status jobs)"
    unfolding sortedJobs_def SortOption.case
    by (rule array_sort_ascending(1) [where key = "\<lambda>j. statusOrder (status j)"])
  from rank show "sorted_wrt (\<lambda>a b. status a = ''running'' \<or> status b \<noteq> ''running'')
      (sortedJobs getTime Status jobs)"
    by (rule sorted_wrt_mono_rel [rotated]) (rule running_first)
  from num show "filter (\<lambda>j. statusOrder (status j) = r) (sortedJobs getTime Status jobs) =
      filter (\<lambda>j. statusOrder (status j) = r) jobs"
    unfolding sortedJobs_def SortOption.case
    by (rule array_sort_ascending(2) [where key = "\<lambda>j. statusOrder (status j)"])
qed

lemma fetchJobs_success:
  "fetchJobs getTime (Some \<lparr>resp_status = ''success'', resp_jobs = Some js\<rparr>) prev =
     take 5 (array_sort
        (\<lambda>a b. if status a = ''running'' \<and> status b \<noteq> ''running'' then Num (- 1)
               else if status a \<noteq> ''running'' \<and> status b = ''running'' then Num 1
               else js_minus (getTime (timestamp b)) (getTime (timestamp a)))
        (take 10 js))"
  by (simp add: fetchJobs_def)

lemma fetchJobs_sorted:
  assumes "list_all (\<lambda>j. getTime (timestamp j) \<noteq> NaN) js"
  shows "sorted_wrt
           (\<lambda>a b. (status a = ''running'' \<and> status b \<noteq> ''running'') \<or>
                  ((status a = ''running'') = (status b = ''running'') \<and>
                   js_le (getTime (timestamp b)) (getTime (timestamp a))))
           (array_sort
              (\<lambda>a b. if status a = ''running'' \<and> status b \<noteq> ''running'' then Num (- 1)
                     else if status a \<noteq> ''running'' \<and> status b = ''running'' then Num 1
                     else js_minus (getTime (timestamp b)) (getTime (timestamp a))) js)"
    and "filter (\<lambda>j. (status j = ''running'') = r \<and> getTime (timestamp j) = t)
           (array_sort
              (\<lambda>a b. if status a = ''running'' \<and> status b \<noteq> ''running'' then Num (- 1)
                     else if status a \<noteq> ''running'' \<and> status b = ''running'' then Num 1
                     else js_minus (getTime (timestamp b)) (getTime (timestamp a))) js) =
         filter (\<lambda>j. (status j = ''running'') = r \<and> getTime (timestamp j) = t) js"
proof -
  let ?cmp = "\<lambda>a b. if status a = ''running'' \<and> status b \<noteq> ''running'' then Num (- 1)
                     else if status a \<noteq> ''running'' \<and> status b = ''running'' then Num 1
                     else js_minus (getTime (timestamp b)) (getTime (timestamp a))"
  let ?R = "\<lambda>a b. (status a = ''running'' \<and> status b \<noteq> ''running'') \<or>
                  ((status a = ''running'') = (status b = ''running'') \<and>
                   js_le (getTime (timestamp b)) (getTime (timestamp a)))"
  from assms have num: "getTime (timestamp x) \<noteq> NaN" if "x \<in> set js" for x
    using that by (simp add: list_all_iff)
  show "sorted_wrt ?R (array_sort ?cmp js)"
  proof (rule sorted_wrt_array_sort)
    fix a b assume "a \<in> set js" "b \<in> set js"
    then have ab: "getTime (timestamp b) \<noteq> NaN" "getTime (timestamp a) \<noteq> NaN"
      by (simp_all add: num)
    from ab show "not_after (?cmp a b) \<longleftrightarrow> ?R a b"
      by (auto simp: js_le_Num not_after_def)
    from js_le_total [OF ab] show "?R a b \<or> ?R b a" by auto
  next
    fix a b c assume "?R a b" "?R b c"
    then show "?R a c" by (auto intro: js_le_trans)
  qed
  show "filter (\<lambda>j. (status j = ''running'') = r \<and> getTime (timestamp j) = t) (array_sort ?cmp js) =
      filter (\<lambda>j. (status j = ''running'') = r \<and> getTime (timestamp j) = t) js"
  proof (rule filter_array_sort)
    fix x y
    assume x: "x \<in> set js"
      and px: "(status x = ''running'') = r \<and> getTime (timestamp x) = t"
      and py: "(status y = ''running'') = r \<and> getTime (timestamp y) = t"
    from x px num [of x] have "t \<noteq> NaN" by auto
    then obtain n where "t = Num n" by (cases t) auto
    with px py show "not_after (?cmp x y)" by (auto simp: not_after_def)
  qed
qed

text \<open>
  Claim C6, as amended. The history is sorted newest first by default, and every sort
  returns a permutation of the job list. When every timestamp of the list parses: newest
  first, the times never increase along the list, and oldest first, they never decrease.
  When no status of the list is the name of a member inherited from
  \<^verbatim>\<open>Object.prototype\<close>: by status, the ranks never decrease, so every running job comes
  before every job of another status. By runtime, the runtimes (a missing one counts as 0)
  never increase. In each of these orders the jobs that compare equal (the same time, the
  same rank, the same runtime) keep the order they have in the input. The list of the job
  queue panel is the first five of the first ten jobs of the response, sorted (when the
  timestamps of these ten parse) with every running job before every job of another
  status and, among the running jobs and among the others, the times never increasing,
  equal jobs in their input order.
\<close>

theorem sortedJobs_orderings:
  "initialSortBy = Newest \<and>
   mset (sortedJobs getTime sortBy jobs) = mset jobs \<and>
   (list_all (\<lambda>j. getTime (timestamp j) \<noteq> NaN) jobs \<longrightarrow>
      sorted_wrt (\<lambda>a b. js_le (getTime (timestamp b)) (getTime (timestamp a)))
        (sortedJobs getTime Newest jobs) \<and>
      (\<forall>t. filter (\<lambda>j. getTime (timestamp j) = t) (sortedJobs getTime Newest jobs) =
           filter (\<lambda>j. getTime (timestamp j) = t) jobs) \<and>
      sorted_wrt (\<lambda>a b. js_le (getTime (timestamp a)) (getTime (timestamp b)))
        (sortedJobs getTime Oldest jobs) \<and>
      (\<forall>t. filter (\<lambda>j. getTime (timestamp j) = t) (sortedJobs getTime Oldest jobs) =
           filter (\<lambda>j. getTime (timestamp j) = t) jobs)) \<and>
   (list_all (\<lambda>j. status j \<notin> set inherited_members) jobs \<longrightarrow>
      sorted_wrt (\<lambda>a b. js_le (statusOrder (status a)) (statusOrder (status b)))
        (sortedJobs getTime Status jobs) \<and>
      sorted_wrt (\<lambda>a b. status a = ''running'' \<or> status b \<noteq> ''running'')
        (sortedJobs getTime Status jobs) \<and>
      (\<forall>r. filter (\<lambda>j. statusOrder (status j) = r) (sortedJobs getTime Status jobs) =
           filter (\<lambda>j. statusOrder (status j) = r) jobs)) \<and>
   sorted_wrt (\<lambda>a b. runtime_or_0 b \<le> runtime_or_0 a) (sortedJobs getTime Runtime jobs) \<and>
   (\<forall>r. filter (\<lambda>j. runtime_or_0 j = r) (sortedJobs getTime Runtime jobs) =
        filter (\<lambda>j. runtime_or_0 j = r) jobs) \<and>
   (list_all (\<lambda>j. getTime (timestamp j) \<noteq> NaN) (take 10 jobs) \<longrightarrow>
      (\<exists>ys. mset ys = mset (take 10 jobs) \<and>
         fetchJobs getTime (Some \<lparr>resp_status = ''success'', resp_jobs = Some jobs\<rparr>) prev =
           take 5 ys \<and>
         sorted_wrt (\<lambda>a b. status a = ''running'' \<or> status b \<noteq> ''running'') ys \<and>
         sorted_wrt
           (\<lambda>a b. (status a = ''running'') \<noteq> (status b = ''running'') \<or>
                  js_le (getTime (timestamp b)) (getTime (timestamp a))) ys \<and>
         (\<forall>r t. filter (\<lambda>j. (status j = ''running'') = r \<and> getTime (timestamp j) = t) ys =
              filter (\<lambda>j. (status j = ''running'') = r \<and> getTime (timestamp j) = t)
                (take 10 jobs))))"
proof (intro conjI impI allI)
  show "initialSortBy = Newest" by (simp add: initialSortBy_def)
  show "mset (sortedJobs getTime sortBy jobs) = mset jobs"
    by (cases sortBy) (simp_all add: sortedJobs_def mset_array_sort)
next
  assume parse: "list_all (\<lambda>j. getTime (timestamp j) \<noteq> NaN) jobs"
  from parse show "sorted_wrt (\<lambda>a b. js_le (getTime (timestamp b)) (getTime (timestamp a)))
      (sortedJobs getTime Newest jobs)"
    unfolding sortedJobs_def SortOption.case
    by (rule array_sort_descending(1) [where key = "\<lambda>j. getTime (timestamp j)"])
  from parse show "filter (\<lambda>j. getTime (timestamp j) = t) (sortedJobs getTime Newest jobs) =
      filter (\<lambda>j. getTime (timestamp j) = t) jobs" for t
    unfolding sortedJobs_def SortOption.case
    by (rule array_sort_descending(2) [where key = "\<lambda>j. getTime (timestamp j)"])
  from parse show "sorted_wrt (\<lambda>a b. js_le (getTime (timestamp a)) (getTime (timestamp b)))
      (sortedJobs getTime Oldest jobs)"
    unfolding sortedJobs_def SortOption.case
    by (rule array_sort_ascending(1) [where key = "\<lambda>j. getTime (timestamp j)"])
  from parse show "filter (\<lambda>j. getTime (timestamp j) = t) (sortedJobs getTime Oldest jobs) =
      filter (\<lambda>j. getTime (timestamp j) = t) jobs" for t
    unfolding sortedJobs_def SortOption.case
    by (rule array_sort_ascending(2) [where key = "\<lambda>j. getTime (timestamp j)"])
next
  assume names: "list_all (\<lambda>j. status j \<notin> set inherited_members) jobs"
  from names show "sorted_wrt (\<lambda>a b. js_le (statusOrder (status a)) (statusOrder (status b)))
      (sortedJobs getTime Status jobs)"
    by (rule sortedJobs_Status(1))
  from names show "sorted_wrt (\<lambda>a b. status a = ''running'' \<or> status b \<noteq> ''running'')
      (sortedJobs getTime Status jobs)"
    by (rule sortedJobs_Status(2))
  from names show "filter (\<lambda>j. statusOrder (status j) = r) (sortedJobs getTime Status jobs) =
      filter (\<lambda>j. statusOrder (status j) = r) jobs" for r
    by (rule sortedJobs_Status(3))
next
  show "sorted_wrt (\<lambda>a b. runtime_or_0 b \<le> runtime_or_0 a) (sortedJobs getTime Runtime jobs)"
    by (rule sortedJobs_Runtime(1))
  show "filter (\<lambda>j. runtime_or_0 j = r) (sortedJobs getTime Runtime jobs) =
      filter (\<lambda>j. runtime_or_0 j = r) jobs" for r
    by (rule sortedJobs_Runtime(2))
next
  assume parse: "list_all (\<lambda>j. getTime (timestamp j) \<noteq> NaN) (take 10 jobs)"
  let ?cmp = "\<lambda>a b. if status a = ''running'' \<and> status b \<noteq> ''running'' then Num (- 1)
                     else if status a \<noteq> ''running'' \<and> status b = ''running'' then Num 1
                     else js_minus (getTime (timestamp b)) (getTime (timestamp a))"
  let ?ys = "array_sort ?cmp (take 10 jobs)"
  have 1: "mset ?ys = mset (take 10 jobs)" by (rule mset_array_sort)
  have 2: "fetchJobs getTime (Some \<lparr>resp_status = ''success'', resp_jobs = Some jobs\<rparr>) prev =
      take 5 ?ys"
    by (rule fetchJobs_success)
  note sorted = fetchJobs_sorted(1) [OF parse]
  from sorted have 3: "sorted_wrt (\<lambda>a b. status a = ''running'' \<or> status b \<noteq> ''running'') ?ys"
    by (rule sorted_wrt_mono_rel [rotated]) auto
  from sorted have 4: "sorted_wrt
      (\<lambda>a b. (status a = ''running'') \<noteq> (status b = ''running'') \<or>
             js_le (getTime (timestamp b)) (getTime (timestamp a))) ?ys"
    by (rule sorted_wrt_mono_rel [rotated]) auto
  have 5: "\<forall>r t. filter (\<lambda>j. (status j = ''running'') = r \<and> getTime (timestamp j) = t) ?ys =
      filter (\<lambda>j. (status j = ''running'') = r \<and> getTime (timestamp j) = t) (take 10 jobs)"
    by (intro allI) (rule fetchJobs_sorted(2) [OF parse])
  show "\<exists>ys. mset ys = mset (take 10 jobs) \<and>
         fetchJobs getTime (Some \<lparr>resp_status = ''success'', resp_jobs = Some jobs\<rparr>) prev =
           take 5 ys \<and>
         sorted_wrt (\<lambda>a b. status a = ''running'' \<or> status b \<noteq> ''running'') ys \<and>
         sorted_wrt
           (\<lambda>a b. (status a = ''running'') \<noteq> (status b = ''running'') \<or>
                  js_le (getTime (timestamp b)) (getTime (timestamp a))) ys \<and>
         (\<forall>r t. filter (\<lambda>j. (status j = ''running'') = r \<and> getTime (timestamp j) = t) ys =
              filter (\<lambda>j. (status j = ''running'') = r \<and> getTime (timestamp j) = t)
                (take 10 jobs))"
    using 1 2 3 4 5 by (intro exI [of _ ?ys] conjI)
qed

theorem sortedJobs_orderings_witness:
  "list_all (\<lambda>j. (if timestamp j = ''2025-01-01T10:00:00'' then Num 1735725600000
                   else if timestamp j = ''2025-01-02T10:00:00'' then Num 1735812000000
                   else NaN) \<noteq> NaN)
     [\<lparr>task_id = ''a'', filename = ''a.pdf'', original_filename = ''a.pdf'',
        timestamp = ''2025-01-01T10:00:00'', runtime = Some 5, status = ''finished'',
        elapsed = None, result_dir = []\<rparr>,
      \<lparr>task_id = ''b'', filename = ''b.pdf'', original_filename = ''b.pdf'',
        timestamp = ''2025-01-02T10:00:00'', runtime = None, status = ''running'',
        elapsed = None, result_dir = []\<rparr>] \<and>
   sorted_wrt
     (\<lambda>a b. js_le
        (if timestamp b = ''2025-01-01T10:00:00'' then Num 1735725600000
         else if timestamp b = ''2025-01-02T10:00:00'' then Num 1735812000000 else NaN)
        (if timestamp a = ''2025-01-01T10:00:00'' then Num 1735725600000
         else if timestamp a = ''2025-01-02T10:00:00'' then Num 1735812000000 else NaN))
     (sortedJobs
        (\<lambda>s. if s = ''2025-01-01T10:00:00'' then Num 1735725600000
             else if s = ''2025-01-02T10:00:00'' then Num 1735812000000 else NaN)
        Newest
        [\<lparr>task_id = ''a'', filename = ''a.pdf'', original_filename = ''a.pdf'',
           timestamp = ''2025-01-01T10:00:00'', runtime = Some 5, status = ''finished'',
           elapsed = None, result_dir = []\<rparr>,
         \<lparr>task_id = ''b'', filename = ''b.pdf'', original_filename = ''b.pdf'',
           timestamp = ''2025-01-02T10:00:00'', runtime = None, status = ''running'',
           elapsed = None, result_dir = []\<rparr>]) \<and>
   list_all (\<lambda>j. status j \<notin> set inherited_members)
     [\<lparr>task_id = ''a'', filename = ''a.pdf'', original_filename = ''a.pdf'',
        timestamp = ''2025-01-01T10:00:00'', runtime = Some 5, status = ''finished'',
        elapsed = None, result_dir = []\<rparr>,
      \<lparr>task_id = ''b'', filename = ''b.pdf'', original_filename = ''b.pdf'',
        timestamp = ''2025-01-02T10:00:00'', runtime = None, status = ''running'',
        elapsed = None, result_dir = []\<rparr>] \<and>
   sorted_wrt (\<lambda>a b. status a = ''running'' \<or> status b \<noteq> ''running'')
     (sortedJobs
        (\<lambda>s. if s = ''2025-01-01T10:00:00'' then Num 1735725600000
             else if s = ''2025-01-02T10:00:00'' then Num 1735812000000 else NaN)
        Status
        [\<lparr>task_id = ''a'', filename = ''a.pdf'', original_filename = ''a.pdf'',
           timestamp = ''2025-01-01T10:00:00'', runtime = Some 5, status = ''finished'',
           elapsed = None, result_dir = []\<rparr>,
         \<lparr>task_id = ''b'', filename = ''b.pdf'', original_filename = ''b.pdf'',
           timestamp = ''2025-01-02T10:00:00'', runtime = None, status = ''running'',
           elapsed = None, result_dir = []\<rparr>]) \<and>
   list_all (\<lambda>j. (if timestamp j = ''2025-01-01T10:00:00'' then Num 1735725600000
                   else if timestamp j = ''2025-01-02T10:00:00'' then Num 1735812000000
                   else NaN) \<noteq> NaN)
     (take 10
       [\<lparr>task_id = ''a'', filename = ''a.pdf'', original_filename = ''a.pdf'',
          timestamp = ''2025-01-01T10:00:00'', runtime = Some 5, status = ''finished'',
          elapsed = None, result_dir = []\<rparr>,
        \<lparr>task_id = ''b'', filename = ''b.pdf'', original_filename = ''b.pdf'',
          timestamp = ''2025-01-02T10:00:00'', runtime = None, status = ''running'',
          elapsed = None, result_dir = []\<rparr>]) \<and>
   (\<exists>ys. mset ys = mset (take 10
       [\<lparr>task_id = ''a'', filename = ''a.pdf'', original_filename = ''a.pdf'',
          timestamp = ''2025-01-01T10:00:00'', runtime = Some 5, status = ''finished'',
          elapsed = None, result_dir = []\<rparr>,
        \<lparr>task_id = ''b'', filename = ''b.pdf'', original_filename = ''b.pdf'',
          timestamp = ''2025-01-02T10:00:00'', runtime = None, status = ''running'',
          elapsed = None, result_dir = []\<rparr>]) \<and>
      fetchJobs
        (\<lambda>s. if s = ''2025-01-01T10:00:00'' then Num 1735725600000
             else if s = ''2025-01-02T10:00:00'' then Num 1735812000000 else NaN)
        (Some \<lparr>resp_status = ''success'', resp_jobs = Some
          [\<lparr>task_id = ''a'', filename = ''a.pdf'', original_filename = ''a.pdf'',
             timestamp = ''2025-01-01T10:00:00'', runtime = Some 5, status = ''finished'',
             elapsed = None, result_dir = []\<rparr>,
           \<lparr>task_id = ''b'', filename = ''b.pdf'', original_filename = ''b.pdf'',
             timestamp = ''2025-01-02T10:00:00'', runtime = None, status = ''running'',
             elapsed = None, result_dir = []\<rparr>]\<rparr>) [] = take 5 ys \<and>
      sorted_wrt (\<lambda>a b. status a = ''running'' \<or> status b \<noteq> ''running'') ys)"
proof -
  let ?g = "\<lambda>s. if s = ''2025-01-01T10:00:00'' then Num 1735725600000
             else if s = ''2025-01-02T10:00:00'' then Num 1735812000000 else NaN"
  let ?jobs = "[\<lparr>task_id = ''a'', filename = ''a.pdf'', original_filename = ''a.pdf'',
           timestamp = ''2025-01-01T10:00:00'', runtime = Some 5, status = ''finished'',
           elapsed = None, result_dir = []\<rparr>,
         \<lparr>task_id = ''b'', filename = ''b.pdf'', original_filename = ''b.pdf'',
           timestamp = ''2025-01-02T10:00:00'', runtime = None, status = ''running'',
           elapsed = None, result_dir = []\<rparr>]"
  note main = sortedJobs_orderings [of ?g Newest ?jobs "[]"]
  have parse: "list_all (\<lambda>j. ?g (timestamp j) \<noteq> NaN) ?jobs" by simp
  have names: "list_all (\<lambda>j. status j \<notin> set inherited_members) ?jobs"
    by (simp add: inherited_members_def)
  have parse10: "list_all (\<lambda>j. ?g (timestamp j) \<noteq> NaN) (take 10 ?jobs)" by simp
  note newest = main [THEN conjunct2, THEN conjunct2, THEN conjunct1, THEN mp, OF parse,
      THEN conjunct1]
  note running = main [THEN conjunct2, THEN conjunct2, THEN conjunct2, THEN conjunct1, THEN mp,
      OF names, THEN conjunct2, THEN conjunct1]
  note queue = main [THEN conjunct2, THEN conjunct2, THEN conjunct2, THEN conjunct2,
      THEN conjunct2, THEN conjunct2, THEN mp, OF parse10]
  from queue obtain ys where ys: "mset ys = mset (take 10 ?jobs)"
      "fetchJobs ?g (Some \<lparr>resp_status = ''success'', resp_jobs = Some ?jobs\<rparr>) [] = take 5 ys"
      "sorted_wrt (\<lambda>a b. status a = ''running'' \<or> status b \<noteq> ''running'') ys"
    by (elim exE conjE)
  from ys have "\<exists>ys. mset ys = mset (take 10 ?jobs) \<and>
      fetchJobs ?g (Some \<lparr>resp_status = ''success'', resp_jobs = Some ?jobs\<rparr>) [] = take 5 ys \<and>
      sorted_wrt (\<lambda>a b. status a = ''running'' \<or> status b \<noteq> ''running'') ys"
    by (intro exI [of _ ys] conjI)
  with parse newest names running parse10 show ?thesis
    by (intro conjI)
qed

text \<open>
  The claim as first stated has the timestamps strictly descending and the order holding
  on every pair of every job list. Two jobs submitted at the same instant are both kept,
  next to each other. A job whose timestamp does not parse (the empty string here) makes
  the comparator return \<^verbatim>\<open>NaN\<close>, which the sort reads as 0: the list \<open>a, b, c\<close> is
  returned as it is, with the newest job \<open>c\<close> after the older job \<open>a\<close>. In the same way a
  status that names an inherited member leaves a running job after a job with an error.
\<close>

theorem sortedJobs_newest_ties_counterexample:
  "sortedJobs (\<lambda>s. if s = ''2025-01-01T10:00:00'' then Num 1735725600000 else NaN) Newest
     [\<lparr>task_id = ''a'', filename = ''a.pdf'', original_filename = ''a.pdf'',
        timestamp = ''2025-01-01T10:00:00'', runtime = Some 5, status = ''finished'',
        elapsed = None, result_dir = []\<rparr>,
      \<lparr>task_id = ''b'', filename = ''b.pdf'', original_filename = ''b.pdf'',
        timestamp = ''2025-01-01T10:00:00'', runtime = Some 7, status = ''finished'',
        elapsed = None, result_dir = []\<rparr>]
   = [\<lparr>task_id = ''a'', filename = ''a.pdf'', original_filename = ''a.pdf'',
        timestamp = ''2025-01-01T10:00:00'', runtime = Some 5, status = ''finished'',
        elapsed = None, result_dir = []\<rparr>,
      \<lparr>task_id = ''b'', filename = ''b.pdf'', original_filename = ''b.pdf'',
        timestamp = ''2025-01-01T10:00:00'', runtime = Some 7, status = ''finished'',
        elapsed = None, result_dir = []\<rparr>] \<and>
   \<not> sorted_wrt
       (\<lambda>a b. js_le (if timestamp b = ''2025-01-01T10:00:00'' then Num 1735725600000 else NaN)
                    (if timestamp a = ''2025-01-01T10:00:00'' then Num 1735725600000 else NaN) \<and>
              (if timestamp b = ''2025-01-01T10:00:00'' then Num 1735725600000 else NaN) \<noteq>
              (if timestamp a = ''2025-01-01T10:00:00'' then Num 1735725600000 else NaN))
       (sortedJobs (\<lambda>s. if s = ''2025-01-01T10:00:00'' then Num 1735725600000 else NaN) Newest
          [\<lparr>task_id = ''a'', filename = ''a.pdf'', original_filename = ''a.pdf'',
             timestamp = ''2025-01-01T10:00:00'', runtime = Some 5, status = ''finished'',
             elapsed = None, result_dir = []\<rparr>,
           \<lparr>task_id = ''b'', filename = ''b.pdf'', original_filename = ''b.pdf'',
             timestamp = ''2025-01-01T10:00:00'', runtime = Some 7, status = ''finished'',
             elapsed = None, result_dir = []\<rparr>]) \<and>
   map task_id
     (sortedJobs
        (\<lambda>s. if s = ''2025-01-01T10:00:00'' then Num 1735725600000
             else if s = ''2025-01-03T10:00:00'' then Num 1735898400000 else NaN)
        Newest
        [\<lparr>task_id = ''a'', filename = ''a.pdf'', original_filename = ''a.pdf'',
           timestamp = ''2025-01-01T10:00:00'', runtime = Some 5, status = ''finished'',
           elapsed = None, result_dir = []\<rparr>,
         \<lparr>task_id = ''b'', filename = ''b.pdf'', original_filename = ''b.pdf'',
           timestamp = [], runtime = Some 7, status = ''finished'',
           elapsed = None, result_dir = []\<rparr>,
         \<lparr>task_id = ''c'', filename = ''c.pdf'', original_filename = ''c.pdf'',
           timestamp = ''2025-01-03T10:00:00'', runtime = Some 9, status = ''finished'',
           elapsed = None, result_dir = []\<rparr>])
   = [''a'', ''b'', ''c''] \<and>
   \<not> js_le (Num 1735898400000) (Num 1735725600000) \<and>
   map task_id
     (sortedJobs (\<lambda>s. NaN) Status
        [\<lparr>task_id = ''a'', filename = ''a.pdf'', original_filename = ''a.pdf'',
           timestamp = [], runtime = None, status = ''error'',
           elapsed = None, result_dir = []\<rparr>,
         \<lparr>task_id = ''b'', filename = ''b.pdf'', original_filename = ''b.pdf'',
           timestamp = [], runtime = None, status = ''constructor'',
           elapsed = None, result_dir = []\<rparr>,
         \<lparr>task_id = ''c'', filename = ''c.pdf'', original_filename = ''c.pdf'',
           timestamp = [], runtime = None, status = ''running'',
           elapsed = None, result_dir = []\<rparr>])
   = [''a'', ''b'', ''c'']"
  by (simp add: sortedJobs_def array_sort_def not_after_def statusOrder_def
      inherited_members_def)

lemma sortedJobs_example:
  "map task_id (sortedJobs (\<lambda>s. Num (int (length s))) Status
     [\<lparr>task_id = ''a'', filename = [], original_filename = [], timestamp = ''1'',
        runtime = Some 5, status = ''pending'', elapsed = None, result_dir = []\<rparr>,
      \<lparr>task_id = ''b'', filename = [], original_filename = [], timestamp = ''22'',
        runtime = None, status = ''error'', elapsed = None, result_dir = []\<rparr>,
      \<lparr>task_id = ''c'', filename = [], original_filename = [], timestamp = ''333'',
        runtime = None, status = ''running'', elapsed = None, result_dir = []\<rparr>,
      \<lparr>task_id = ''d'', filename = [], original_filename = [], timestamp = ''4444'',
        runtime = Some 9, status = ''finished'', elapsed = None, result_dir = []\<rparr>])
   = [''c'', ''d'', ''b'', ''a'']"
  by (simp add: sortedJobs_def array_sort_def statusOrder_def not_after_def
      inherited_members_def)

subsection \<open>The polling loop\<close>

lemma map_of_cleared: "map_of (filter (\<lambda>(k, callback). k \<noteq> h) xs) h = None"
  by (induction xs) auto

lemma map_of_filter_None: "map_of xs h = None \<Longrightarrow> map_of (filter P xs) h = None"
  by (induction xs) (auto split: if_splits)

lemma intervals_clearInterval_None:
  "map_of (intervals c) h = None \<Longrightarrow> map_of (intervals (clearInterval ref c)) h = None"
  by (cases ref) (simp_all add: clearInterval_def map_of_filter_None)

lemma tick_inactive: "map_of (intervals c) h = None \<Longrightarrow> tick h now progress result c = c"
  by (simp add: tick_def)

lemma poll_loop_inactive: "map_of (intervals c) h = None \<Longrightarrow> poll_loop h rounds c = c"
  by (induction rounds) (simp_all add: poll_loop_def tick_inactive split: prod.splits)

lemma poll_callback_not_terminal:
  "\<not> observes_terminal progress \<Longrightarrow> poll_callback t s now progress result c = c"
  by (cases progress) (simp_all add: poll_callback_def)

lemma intervals_poll_callback_terminal:
  "observes_terminal progress \<Longrightarrow>
     intervals (poll_callback t s now progress result c) =
       intervals (clearInterval (timerIntervalRef c) (clearInterval (pollIntervalRef c) c))"
  by (auto simp: poll_callback_def Let_def observes_terminal_def split: option.splits)

lemma poll_callback_terminal_stops:
  assumes "observes_terminal progress" and "pollIntervalRef c = Some h"
  shows "map_of (intervals (poll_callback t s now progress result c)) h = None"
proof -
  have "map_of (intervals (clearInterval (pollIntervalRef c) c)) h = None"
    using assms(2) by (simp add: clearInterval_def map_of_cleared)
  then have "map_of (intervals (clearInterval (timerIntervalRef c)
      (clearInterval (pollIntervalRef c) c))) h = None"
    by (rule intervals_clearInterval_None)
  with assms(1) show ?thesis by (simp only: intervals_poll_callback_terminal)
qed

lemma polling_iff: "polling h c \<longleftrightarrow> (\<exists>t s. map_of (intervals c) h = Some (PollTimer t s))"
  by (auto simp: polling_def split: option.splits interval.splits)

text \<open>
  The poll that \<^verbatim>\<open>pollIntervalRef\<close> holds stops exactly when it observes a terminal state,
  and until then it changes nothing.
\<close>

lemma tick_polling:
  assumes "polling h c" and "pollIntervalRef c = Some h"
  shows "polling h (tick h now progress result c) \<longleftrightarrow> \<not> observes_terminal progress"
    and "\<not> observes_terminal progress \<Longrightarrow> tick h now progress result c = c"
    and "observes_terminal progress \<Longrightarrow>
           map_of (intervals (tick h now progress result c)) h = None"
proof -
  from assms(1) obtain t s where m: "map_of (intervals c) h = Some (PollTimer t s)"
    unfolding polling_iff by (elim exE)
  then have tk: "tick h now progress result c = poll_callback t s now progress result c"
    by (simp add: tick_def)
  show 2: "tick h now progress result c = c" if "\<not> observes_terminal progress"
    using that by (simp add: tk poll_callback_not_terminal)
  show 3: "map_of (intervals (tick h now progress result c)) h = None"
    if "observes_terminal progress"
    unfolding tk using that assms(2) by (rule poll_callback_terminal_stops)
  show "polling h (tick h now progress result c) \<longleftrightarrow> \<not> observes_terminal progress"
  proof (cases "observes_terminal progress")
    case True
    with 3 show ?thesis by (simp add: polling_def)
  next
    case False
    with 2 assms(1) show ?thesis by simp
  qed
qed

lemma poll_loop_polling:
  assumes "polling h c" and "pollIntervalRef c = Some h"
  shows "polling h (poll_loop h rounds c) \<longleftrightarrow>
     list_all (\<lambda>(now, progress, result). \<not> observes_terminal progress) rounds"
proof (induction rounds)
  case Nil
  from assms(1) show ?case by (simp add: poll_loop_def)
next
  case (Cons r rounds)
  obtain now progress result where r: "r = (now, progress, result)" by (cases r)
  have unfold: "poll_loop h (r # rounds) c = poll_loop h rounds (tick h now progress result c)"
    by (simp add: poll_loop_def r)
  show ?case
  proof (cases "observes_terminal progress")
    case True
    have "map_of (intervals (tick h now progress result c)) h = None"
      by (rule tick_polling(3) [OF assms True])
    then have "map_of (intervals (poll_loop h (r # rounds) c)) h = None"
      unfolding unfold by (simp add: poll_loop_inactive)
    with True show ?thesis by (simp add: polling_def r)
  next
    case False
    have "tick h now progress result c = c" by (rule tick_polling(2) [OF assms False])
    then have "poll_loop h (r # rounds) c = poll_loop h rounds c"
      by (simp only: unfold)
    with False Cons show ?thesis by (simp add: r)
  qed
qed

text \<open>
  The callback clears the timers that the two refs hold, not itself. A poll that a later
  \<^verbatim>\<open>startPolling\<close> has superseded goes on polling whatever it observes, and when it
  observes a terminal state of its own task it stops the poll the ref holds, which tracks
  another task.
\<close>

lemma superseded_poll_goes_on:
  assumes "polling h c" and "pollIntervalRef c \<noteq> Some h" and "timerIntervalRef c \<noteq> Some h"
  shows "polling h (tick h now progress result c)"
proof (cases "observes_terminal progress")
  case False
  from assms(1) obtain t s where m: "map_of (intervals c) h = Some (PollTimer t s)"
    unfolding polling_iff by (elim exE)
  with False have "tick h now progress result c = c"
    by (simp add: tick_def poll_callback_not_terminal)
  with assms(1) show ?thesis by simp
next
  case True
  from assms(1) obtain t s where m: "map_of (intervals c) h = Some (PollTimer t s)"
    unfolding polling_iff by (elim exE)
  have keep: "map_of (filter (\<lambda>(k, callback). k \<noteq> h') xs) h = map_of xs h"
    if "h' \<noteq> h" for h' and xs :: "(nat \<times> interval) list"
    using that by (induction xs) auto
  have 1: "map_of (intervals (clearInterval (pollIntervalRef c) c)) h = map_of (intervals c) h"
    using assms(2) by (cases "pollIntervalRef c") (simp_all add: clearInterval_def keep)
  have 2: "map_of (intervals (clearInterval (timerIntervalRef c)
      (clearInterval (pollIntervalRef c) c))) h = map_of (intervals c) h"
  proof (cases "timerIntervalRef c")
    case None
    with 1 show ?thesis by (simp add: clearInterval_def)
  next
    case (Some h')
    with assms(3) have "h' \<noteq> h" by simp
    with Some 1 show ?thesis by (simp add: clearInterval_def keep)
  qed
  have "tick h now progress result c = poll_callback t s now progress result c"
    using m by (simp add: tick_def)
  with True 2 m have "map_of (intervals (tick h now progress result c)) h = Some (PollTimer t s)"
    by (simp add: intervals_poll_callback_terminal)
  then show ?thesis by (simp add: polling_def)
qed

lemma superseded_poll_stops_the_other:
  assumes "map_of (intervals c) h = Some (PollTimer t s)" and "observes_terminal progress"
    and "pollIntervalRef c = Some h'"
  shows "\<not> polling h' (tick h now progress result c)"
proof -
  have "tick h now progress result c = poll_callback t s now progress result c"
    using assms(1) by (simp add: tick_def)
  moreover have "map_of (intervals (poll_callback t s now progress result c)) h' = None"
    using assms(2,3) by (rule poll_callback_terminal_stops)
  ultimately show ?thesis by (simp add: polling_def)
qed

text \<open>
  Claim C1, the polling loop, at an input where it fails. A file is uploaded and parsed as
  task \<open>A\<close>; while \<open>A\<close> is processed the file is removed, a second file is uploaded and
  parsed as task \<open>B\<close>. Now two polls run: handle 2 tracks \<open>A\<close>, handle 4 tracks \<open>B\<close>, and the
  ref holds 4. When the poll of \<open>A\<close> observes that \<open>A\<close> is finished, the poll of \<open>B\<close> and the
  counter of \<open>B\<close> are cleared and the client stops processing with the result of \<open>A\<close>, the
  active task being \<open>B\<close>: the poll of \<open>B\<close> has stopped without observing a terminal state
  of \<open>B\<close>. The poll of \<open>A\<close> goes on: it has observed a terminal state and does not stop,
  nor does it at the next observation.
\<close>

theorem superseded_poll_failing_input:
  "polling 2
     (app_run getTime
        [FileChange (Some ''a.pdf'') (Some \<lparr>up_status = ''success'',
           up_file_path = ''uploads/a.pdf'', up_original_filename = ''a.pdf''\<rparr>),
         StartParsing 0 (Some \<lparr>st_status = ''running'', st_task_id = ''A''\<rparr>),
         FileChange None None,
         FileChange (Some ''b.pdf'') (Some \<lparr>up_status = ''success'',
           up_file_path = ''uploads/b.pdf'', up_original_filename = ''b.pdf''\<rparr>),
         StartParsing 10000 (Some \<lparr>st_status = ''running'', st_task_id = ''B''\<rparr>)]
        initial_state) \<and>
   polling 4
     (app_run getTime
        [FileChange (Some ''a.pdf'') (Some \<lparr>up_status = ''success'',
           up_file_path = ''uploads/a.pdf'', up_original_filename = ''a.pdf''\<rparr>),
         StartParsing 0 (Some \<lparr>st_status = ''running'', st_task_id = ''A''\<rparr>),
         FileChange None None,
         FileChange (Some ''b.pdf'') (Some \<lparr>up_status = ''success'',
           up_file_path = ''uploads/b.pdf'', up_original_filename = ''b.pdf''\<rparr>),
         StartParsing 10000 (Some \<lparr>st_status = ''running'', st_task_id = ''B''\<rparr>)]
        initial_state) \<and>
   intervals
     (app_run getTime
        [FileChange (Some ''a.pdf'') (Some \<lparr>up_status = ''success'',
           up_file_path = ''uploads/a.pdf'', up_original_filename = ''a.pdf''\<rparr>),
         StartParsing 0 (Some \<lparr>st_status = ''running'', st_task_id = ''A''\<rparr>),
         FileChange None None,
         FileChange (Some ''b.pdf'') (Some \<lparr>up_status = ''success'',
           up_file_path = ''uploads/b.pdf'', up_original_filename = ''b.pdf''\<rparr>),
         StartParsing 10000 (Some \<lparr>st_status = ''running'', st_task_id = ''B''\<rparr>),
         Tick 2 15000 (Some \<lparr>pr_status = ''success'', pr_state = ''finished''\<rparr>)
           (Some \<lparr>rr_status = ''success'', rr_state = ''finished'',
              rr_result_dir = ''results/A'', rr_runtime = Some 14\<rparr>)]
        initial_state)
     = [(2, PollTimer ''A'' 0), (1, ElapsedTimer 0)] \<and>
   taskId
     (app_run getTime
        [FileChange (Some ''a.pdf'') (Some \<lparr>up_status = ''success'',
           up_file_path = ''uploads/a.pdf'', up_original_filename = ''a.pdf''\<rparr>),
         StartParsing 0 (Some \<lparr>st_status = ''running'', st_task_id = ''A''\<rparr>),
         FileChange None None,
         FileChange (Some ''b.pdf'') (Some \<lparr>up_status = ''success'',
           up_file_path = ''uploads/b.pdf'', up_original_filename = ''b.pdf''\<rparr>),
         StartParsing 10000 (Some \<lparr>st_status = ''running'', st_task_id = ''B''\<rparr>),
         Tick 2 15000 (Some \<lparr>pr_status = ''success'', pr_state = ''finished''\<rparr>)
           (Some \<lparr>rr_status = ''success'', rr_state = ''finished'',
              rr_result_dir = ''results/A'', rr_runtime = Some 14\<rparr>)]
        initial_state) = ''B'' \<and>
   \<not> isProcessing
     (app_run getTime
        [FileChange (Some ''a.pdf'') (Some \<lparr>up_status = ''success'',
           up_file_path = ''uploads/a.pdf'', up_original_filename = ''a.pdf''\<rparr>),
         StartParsing 0 (Some \<lparr>st_status = ''running'', st_task_id = ''A''\<rparr>),
         FileChange None None,
         FileChange (Some ''b.pdf'') (Some \<lparr>up_status = ''success'',
           up_file_path = ''uploads/b.pdf'', up_original_filename = ''b.pdf''\<rparr>),
         StartParsing 10000 (Some \<lparr>st_status = ''running'', st_task_id = ''B''\<rparr>),
         Tick 2 15000 (Some \<lparr>pr_status = ''success'', pr_state = ''finished''\<rparr>)
           (Some \<lparr>rr_status = ''success'', rr_state = ''finished'',
              rr_result_dir = ''results/A'', rr_runtime = Some 14\<rparr>)]
        initial_state) \<and>
   resultDir
     (app_run getTime
        [FileChange (Some ''a.pdf'') (Some \<lparr>up_status = ''success'',
           up_file_path = ''uploads/a.pdf'', up_original_filename = ''a.pdf''\<rparr>),
         StartParsing 0 (Some \<lparr>st_status = ''running'', st_task_id = ''A''\<rparr>),
         FileChange None None,
         FileChange (Some ''b.pdf'') (Some \<lparr>up_status = ''success'',
           up_file_path = ''uploads/b.pdf'', up_original_filename = ''b.pdf''\<rparr>),
         StartParsing 10000 (Some \<lparr>st_status = ''running'', st_task_id = ''B''\<rparr>),
         Tick 2 15000 (Some \<lparr>pr_status = ''success'', pr_state = ''finished''\<rparr>)
           (Some \<lparr>rr_status = ''success'', rr_state = ''finished'',
              rr_result_dir = ''results/A'', rr_runtime = Some 14\<rparr>)]
        initial_state) = ''results/A'' \<and>
   polling 2
     (app_run getTime
        [FileChange (Some ''a.pdf'') (Some \<lparr>up_status = ''success'',
           up_file_path = ''uploads/a.pdf'', up_original_filename = ''a.pdf''\<rparr>),
         StartParsing 0 (Some \<lparr>st_status = ''running'', st_task_id = ''A''\<rparr>),
         FileChange None None,
         FileChange (Some ''b.pdf'') (Some \<lparr>up_status = ''success'',
           up_file_path = ''uploads/b.pdf'', up_original_filename = ''b.pdf''\<rparr>),
         StartParsing 10000 (Some \<lparr>st_status = ''running'', st_task_id = ''B''\<rparr>),
         Tick 2 15000 (Some \<lparr>pr_status = ''success'', pr_state = ''finished''\<rparr>)
           (Some \<lparr>rr_status = ''success'', rr_state = ''finished'',
              rr_result_dir = ''results/A'', rr_runtime = Some 14\<rparr>),
         Tick 2 20000 (Some \<lparr>pr_status = ''success'', pr_state = ''finished''\<rparr>)
           (Some \<lparr>rr_status = ''success'', rr_state = ''finished'',
              rr_result_dir = ''results/A'', rr_runtime = Some 14\<rparr>)]
        initial_state)"
proof -
  have before: "app_run getTime
        [FileChange (Some ''a.pdf'') (Some \<lparr>up_status = ''success'',
           up_file_path = ''uploads/a.pdf'', up_original_filename = ''a.pdf''\<rparr>),
         StartParsing 0 (Some \<lparr>st_status = ''running'', st_task_id = ''A''\<rparr>),
         FileChange None None,
         FileChange (Some ''b.pdf'') (Some \<lparr>up_status = ''success'',
           up_file_path = ''uploads/b.pdf'', up_original_filename = ''b.pdf''\<rparr>),
         StartParsing 10000 (Some \<lparr>st_status = ''running'', st_task_id = ''B''\<rparr>)]
        initial_state =
      \<lparr>uploadedFile = Some ''b.pdf'', uploadedFilePath = ''uploads/b.pdf'',
       originalFilename = ''b.pdf'', isProcessing = True, taskId = ''B'', resultDir = [],
       parseCompleted = False, selectedPreviewFile = None, consoleMessages = [],
       elapsedTime = Num 0, totalRuntime = None, hasRestoredState = False,
       pollIntervalRef = Some 4, timerIntervalRef = Some 3,
       intervals = [(4, PollTimer ''B'' 10000), (3, ElapsedTimer 10000),
                    (2, PollTimer ''A'' 0), (1, ElapsedTimer 0)],
       nextHandle = 5, sockets = [''A'', ''B''],
       toasts = [ToastSuccess ''File uploaded successfully'',
                 ToastSuccess ''File uploaded successfully'']\<rparr>"
    by (simp add: app_run_def handleFileChange_def handleStartParsing_def startPolling_def
        setInterval_def initial_state_def Let_def)
  have run_snoc: "app_run getTime (es @ [e]) c = app_step getTime (app_run getTime es c) e"
    for es e c by (simp add: app_run_def)
  have after: "app_run getTime
        [FileChange (Some ''a.pdf'') (Some \<lparr>up_status = ''success'',
           up_file_path = ''uploads/a.pdf'', up_original_filename = ''a.pdf''\<rparr>),
         StartParsing 0 (Some \<lparr>st_status = ''running'', st_task_id = ''A''\<rparr>),
         FileChange None None,
         FileChange (Some ''b.pdf'') (Some \<lparr>up_status = ''success'',
           up_file_path = ''uploads/b.pdf'', up_original_filename = ''b.pdf''\<rparr>),
         StartParsing 10000 (Some \<lparr>st_status = ''running'', st_task_id = ''B''\<rparr>),
         Tick 2 15000 (Some \<lparr>pr_status = ''success'', pr_state = ''finished''\<rparr>)
           (Some \<lparr>rr_status = ''success'', rr_state = ''finished'',
              rr_result_dir = ''results/A'', rr_runtime = Some 14\<rparr>)]
        initial_state =
      \<lparr>uploadedFile = Some ''b.pdf'', uploadedFilePath = ''uploads/b.pdf'',
       originalFilename = ''b.pdf'', isProcessing = False, taskId = ''B'',
       resultDir = ''results/A'', parseCompleted = True, selectedPreviewFile = None,
       consoleMessages = [], elapsedTime = Num 0, totalRuntime = Some 14,
       hasRestoredState = False, pollIntervalRef = Some 4, timerIntervalRef = Some 3,
       intervals = [(2, PollTimer ''A'' 0), (1, ElapsedTimer 0)],
       nextHandle = 5, sockets = [''A'', ''B''],
       toasts = [ToastSuccess ''File uploaded successfully'',
                 ToastSuccess ''File uploaded successfully'',
                 ToastSuccess ''Processing complete!'']\<rparr>"
    using run_snoc [of "[FileChange (Some ''a.pdf'') (Some \<lparr>up_status = ''success'',
           up_file_path = ''uploads/a.pdf'', up_original_filename = ''a.pdf''\<rparr>),
         StartParsing 0 (Some \<lparr>st_status = ''running'', st_task_id = ''A''\<rparr>),
         FileChange None None,
         FileChange (Some ''b.pdf'') (Some \<lparr>up_status = ''success'',
           up_file_path = ''uploads/b.pdf'', up_original_filename = ''b.pdf''\<rparr>),
         StartParsing 10000 (Some \<lparr>st_status = ''running'', st_task_id = ''B''\<rparr>)]"
        "Tick 2 15000 (Some \<lparr>pr_status = ''success'', pr_state = ''finished''\<rparr>)
           (Some \<lparr>rr_status = ''success'', rr_state = ''finished'',
              rr_result_dir = ''results/A'', rr_runtime = Some 14\<rparr>)" initial_state]
    unfolding before
    by (simp add: tick_def poll_callback_def observes_terminal_def clearInterval_def Let_def)
  have again: "app_run getTime
        [FileChange (Some ''a.pdf'') (Some \<lparr>up_status = ''success'',
           up_file_path = ''uploads/a.pdf'', up_original_filename = ''a.pdf''\<rparr>),
         StartParsing 0 (Some \<lparr>st_status = ''running'', st_task_id = ''A''\<rparr>),
         FileChange None None,
         FileChange (Some ''b.pdf'') (Some \<lparr>up_status = ''success'',
           up_file_path = ''uploads/b.pdf'', up_original_filename = ''b.pdf''\<rparr>),
         StartParsing 10000 (Some \<lparr>st_status = ''running'', st_task_id = ''B''\<rparr>),
         Tick 2 15000 (Some \<lparr>pr_status = ''success'', pr_state = ''finished''\<rparr>)
           (Some \<lparr>rr_status = ''success'', rr_state = ''finished'',
              rr_result_dir = ''results/A'', rr_runtime = Some 14\<rparr>),
         Tick 2 20000 (Some \<lparr>pr_status = ''success'', pr_state = ''finished''\<rparr>)
           (Some \<lparr>rr_status = ''success'', rr_state = ''finished'',
              rr_result_dir = ''results/A'', rr_runtime = Some 14\<rparr>)]
        initial_state =
      \<lparr>uploadedFile = Some ''b.pdf'', uploadedFilePath = ''uploads/b.pdf'',
       originalFilename = ''b.pdf'', isProcessing = False, taskId = ''B'',
       resultDir = ''results/A'', parseCompleted = True, selectedPreviewFile = None,
       consoleMessages = [], elapsedTime = Num 0, totalRuntime = Some 14,
       hasRestoredState = False, pollIntervalRef = Some 4, timerIntervalRef = Some 3,
       intervals = [(2, PollTimer ''A'' 0), (1, ElapsedTimer 0)],
       nextHandle = 5, sockets = [''A'', ''B''],
       toasts = [ToastSuccess ''File uploaded successfully'',
                 ToastSuccess ''File uploaded successfully'',
                 ToastSuccess ''Processing complete!'',
                 ToastSuccess ''Processing complete!'']\<rparr>"
    using run_snoc [of "[FileChange (Some ''a.pdf'') (Some \<lparr>up_status = ''success'',
           up_file_path = ''uploads/a.pdf'', up_original_filename = ''a.pdf''\<rparr>),
         StartParsing 0 (Some \<lparr>st_status = ''running'', st_task_id = ''A''\<rparr>),
         FileChange None None,
         FileChange (Some ''b.pdf'') (Some \<lparr>up_status = ''success'',
           up_file_path = ''uploads/b.pdf'', up_original_filename = ''b.pdf''\<rparr>),
         StartParsing 10000 (Some \<lparr>st_status = ''running'', st_task_id = ''B''\<rparr>),
         Tick 2 15000 (Some \<lparr>pr_status = ''success'', pr_state = ''finished''\<rparr>)
           (Some \<lparr>rr_status = ''success'', rr_state = ''finished'',
              rr_result_dir = ''results/A'', rr_runtime = Some 14\<rparr>)]"
        "Tick 2 20000 (Some \<lparr>pr_status = ''success'', pr_state = ''finished''\<rparr>)
           (Some \<lparr>rr_status = ''success'', rr_state = ''finished'',
              rr_result_dir = ''results/A'', rr_runtime = Some 14\<rparr>)" initial_state]
    unfolding after
    by (simp add: tick_def poll_callback_def observes_terminal_def clearInterval_def Let_def)
  show ?thesis
    unfolding before after again by (simp add: polling_def)
qed

subsection \<open>Restoring a running job on mount\<close>

lemma checkRunningJobs_restored:
  assumes "\<not> hasRestoredState c"
    and "find (\<lambda>job. status job = ''running'') jobs = Some runningJob"
  shows "checkRunningJobs getTime now (Some \<lparr>resp_status = ''success'', resp_jobs = Some jobs\<rparr>) c =
     c\<lparr>hasRestoredState := True,
       taskId := task_id runningJob,
       isProcessing := True,
       originalFilename :=
         (if original_filename runningJob \<noteq> [] then original_filename runningJob
          else filename runningJob),
       elapsedTime :=
         (if timestamp runningJob \<noteq> []
          then floor_seconds (js_minus (Num now) (getTime (timestamp runningJob)))
          else elapsedTime c),
       toasts := toasts c @ [ToastInfo ''Resuming running job''],
       timerIntervalRef := Some (nextHandle c),
       pollIntervalRef := Some (Suc (nextHandle c)),
       intervals := (Suc (nextHandle c), PollTimer (task_id runningJob) now) #
                    (nextHandle c, ElapsedTimer now) # intervals c,
       nextHandle := Suc (Suc (nextHandle c))\<rparr>"
  using assms by (simp add: checkRunningJobs_def startPolling_def setInterval_def Let_def)

lemma checkRunningJobs_unchanged:
  "hasRestoredState c \<Longrightarrow> checkRunningJobs getTime now response c = c"
  "find (\<lambda>job. status job = ''running'') jobs = None \<Longrightarrow>
     checkRunningJobs getTime now (Some \<lparr>resp_status = s, resp_jobs = Some jobs\<rparr>) c = c"
  "checkRunningJobs getTime now None c = c"
  by (simp_all add: checkRunningJobs_def)

lemma checkRunningJobs_once:
  assumes "\<not> hasRestoredState c"
    and "find (\<lambda>job. status job = ''running'') jobs = Some runningJob"
  shows "checkRunningJobs getTime now' response
           (checkRunningJobs getTime now
              (Some \<lparr>resp_status = ''success'', resp_jobs = Some jobs\<rparr>) c) =
         checkRunningJobs getTime now
           (Some \<lparr>resp_status = ''success'', resp_jobs = Some jobs\<rparr>) c"
proof (rule checkRunningJobs_unchanged(1))
  show "hasRestoredState (checkRunningJobs getTime now
      (Some \<lparr>resp_status = ''success'', resp_jobs = Some jobs\<rparr>) c)"
    unfolding checkRunningJobs_restored [OF assms] by simp
qed

lemma polling_startPolling:
  "polling (Suc (nextHandle c)) (startPolling t s c)"
  "pollIntervalRef (startPolling t s c) = Some (Suc (nextHandle c))"
  "map_of (intervals (startPolling t s c)) (Suc (nextHandle c)) = Some (PollTimer t s)"
  by (simp_all add: startPolling_def setInterval_def polling_def)

text \<open>
  After a restoration the elapsed-time counter runs with the start time that
  \<^verbatim>\<open>checkRunningJobs\<close> passes to \<^verbatim>\<open>startPolling\<close>, the time of the restoration and not
  the time the job started: at its first tick it replaces the restored elapsed time by the
  time since the restoration.
\<close>

lemma restored_timer_counts_from_restoration:
  assumes "\<not> hasRestoredState c"
    and "find (\<lambda>job. status job = ''running'') jobs = Some runningJob"
  shows "elapsedTime (tick (nextHandle c) t progress result
           (checkRunningJobs getTime now
              (Some \<lparr>resp_status = ''success'', resp_jobs = Some jobs\<rparr>) c))
         = Num ((t - now) div 1000)"
  unfolding checkRunningJobs_restored [OF assms] by (simp add: tick_def)

text \<open>
  After \<^verbatim>\<open>handleStartParsing\<close> the counter runs with the time the job was started.
\<close>

lemma started_timer_counts_from_start:
  assumes "uploadedFilePath c \<noteq> []" and "task \<noteq> []"
  shows "elapsedTime (tick (nextHandle c) t progress result
           (handleStartParsing startTime (Some \<lparr>st_status = ''running'', st_task_id = task\<rparr>) c))
         = Num ((t - startTime) div 1000)"
  using assms
  by (simp add: handleStartParsing_def startPolling_def setInterval_def tick_def Let_def)

text \<open>
  Claim C7 at an input where it fails. The history is fetched 42.5 seconds after the
  running job \<open>t2\<close> was submitted. \<^verbatim>\<open>checkRunningJobs\<close> adopts \<open>t2\<close>, marks the client
  processing, sets the elapsed time to 42 seconds and starts the poll of \<open>t2\<close>. One
  second later the elapsed-time counter fires for the first time and sets the elapsed
  time to 1, the time since the restoration; the time since the start of the job is 43
  seconds. The restored elapsed time is shown for one second at most.
\<close>

theorem restored_elapsed_time_failing_input:
  "taskId
     (checkRunningJobs
        (\<lambda>s. if s = ''2025-01-01T10:00:00'' then Num 1735725600000 else NaN) 1735725642500
        (Some \<lparr>resp_status = ''success'', resp_jobs = Some
          [\<lparr>task_id = ''t1'', filename = ''a.pdf'', original_filename = ''a.pdf'',
             timestamp = ''2025-01-01T09:00:00'', runtime = Some 30, status = ''finished'',
             elapsed = None, result_dir = ''out/t1''\<rparr>,
           \<lparr>task_id = ''t2'', filename = ''b.pdf'', original_filename = ''b.pdf'',
             timestamp = ''2025-01-01T10:00:00'', runtime = None, status = ''running'',
             elapsed = None, result_dir = []\<rparr>]\<rparr>) initial_state) = ''t2'' \<and>
   isProcessing
     (checkRunningJobs
        (\<lambda>s. if s = ''2025-01-01T10:00:00'' then Num 1735725600000 else NaN) 1735725642500
        (Some \<lparr>resp_status = ''success'', resp_jobs = Some
          [\<lparr>task_id = ''t1'', filename = ''a.pdf'', original_filename = ''a.pdf'',
             timestamp = ''2025-01-01T09:00:00'', runtime = Some 30, status = ''finished'',
             elapsed = None, result_dir = ''out/t1''\<rparr>,
           \<lparr>task_id = ''t2'', filename = ''b.pdf'', original_filename = ''b.pdf'',
             timestamp = ''2025-01-01T10:00:00'', runtime = None, status = ''running'',
             elapsed = None, result_dir = []\<rparr>]\<rparr>) initial_state) \<and>
   intervals
     (checkRunningJobs
        (\<lambda>s. if s = ''2025-01-01T10:00:00'' then Num 1735725600000 else NaN) 1735725642500
        (Some \<lparr>resp_status = ''success'', resp_jobs = Some
          [\<lparr>task_id = ''t1'', filename = ''a.pdf'', original_filename = ''a.pdf'',
             timestamp = ''2025-01-01T09:00:00'', runtime = Some 30, status = ''finished'',
             elapsed = None, result_dir = ''out/t1''\<rparr>,
           \<lparr>task_id = ''t2'', filename = ''b.pdf'', original_filename = ''b.pdf'',
             timestamp = ''2025-01-01T10:00:00'', runtime = None, status = ''running'',
             elapsed = None, result_dir = []\<rparr>]\<rparr>) initial_state)
     = [(2, PollTimer ''t2'' 1735725642500), (1, ElapsedTimer 1735725642500)] \<and>
   elapsedTime
     (checkRunningJobs
        (\<lambda>s. if s = ''2025-01-01T10:00:00'' then Num 1735725600000 else NaN) 1735725642500
        (Some \<lparr>resp_status = ''success'', resp_jobs = Some
          [\<lparr>task_id = ''t1'', filename = ''a.pdf'', original_filename = ''a.pdf'',
             timestamp = ''2025-01-01T09:00:00'', runtime = Some 30, status = ''finished'',
             elapsed = None, result_dir = ''out/t1''\<rparr>,
           \<lparr>task_id = ''t2'', filename = ''b.pdf'', original_filename = ''b.pdf'',
             timestamp = ''2025-01-01T10:00:00'', runtime = None, status = ''running'',
             elapsed = None, result_dir = []\<rparr>]\<rparr>) initial_state) = Num 42 \<and>
   elapsedTime
     (tick 1 1735725643500 None None
        (checkRunningJobs
           (\<lambda>s. if s = ''2025-01-01T10:00:00'' then Num 1735725600000 else NaN) 1735725642500
           (Some \<lparr>resp_status = ''success'', resp_jobs = Some
             [\<lparr>task_id = ''t1'', filename = ''a.pdf'', original_filename = ''a.pdf'',
                timestamp = ''2025-01-01T09:00:00'', runtime = Some 30, status = ''finished'',
                elapsed = None, result_dir = ''out/t1''\<rparr>,
              \<lparr>task_id = ''t2'', filename = ''b.pdf'', original_filename = ''b.pdf'',
                timestamp = ''2025-01-01T10:00:00'', runtime = None, status = ''running'',
                elapsed = None, result_dir = []\<rparr>]\<rparr>) initial_state)) = Num 1 \<and>
   floor_seconds (js_minus (Num 1735725643500) (Num 1735725600000)) = Num 43"
  by (simp add: checkRunningJobs_def startPolling_def setInterval_def initial_state_def
      tick_def Let_def)

subsection \<open>Startup reconciliation\<close>

lemma records_submit:
  "\<exists>news. records (snd (submit jid artifact t st)) = records st @ news \<and>
     list_all (\<lambda>r. jobStatus r = Pending) news"
  by (simp add: submit_def pending_record_def)

lemma records_restart:
  "\<exists>news. records (restart now submissions st) = records (runner_startup now st) @ news \<and>
     list_all (\<lambda>r. jobStatus r = Pending) news"
proof (induction submissions rule: rev_induct)
  case Nil
  then show ?case by (simp add: restart_def)
next
  case (snoc x xs)
  obtain jid artifact t where x: "x = (jid, artifact, t)" by (cases x)
  from snoc obtain news where n: "records (restart now xs st) = records (runner_startup now st) @ news"
    and p: "list_all (\<lambda>r. jobStatus r = Pending) news" by (elim exE conjE)
  from records_submit [of jid artifact t "restart now xs st"]
  obtain more where m: "records (snd (submit jid artifact t (restart now xs st))) =
      records (restart now xs st) @ more"
    and q: "list_all (\<lambda>r. jobStatus r = Pending) more" by (elim exE conjE)
  have "restart now (xs @ [x]) st = snd (submit jid artifact t (restart now xs st))"
    by (simp add: restart_def x)
  with n m have "records (restart now (xs @ [x]) st) =
      records (runner_startup now st) @ (news @ more)" by simp
  moreover from p q have "list_all (\<lambda>r. jobStatus r = Pending) (news @ more)" by simp
  ultimately show ?case by (intro exI conjI)
qed

lemma reconcile_running:
  "jobStatus r = Running \<Longrightarrow>
     jobId (reconcile now r) = jobId r \<and> jobStatus (reconcile now r) = Error \<and>
     errorDetail (reconcile now r) = Some orphan_diagnostic"
  by (simp add: reconcile_def)

lemma reconcile_not_running: "jobStatus (reconcile now r) \<noteq> Running"
  by (simp add: reconcile_def)

lemma orphan_diagnostic_not_empty: "orphan_diagnostic \<noteq> []"
  by (simp add: orphan_diagnostic_def)

text \<open>
  Claim C3. When the runner starts on a persisted store, every record found running
  becomes an error record with the non-empty diagnostic of the reconciliation, and it is
  so in every store a restart can lead to, whatever submissions are accepted afterwards:
  the records after a restart are the reconciled ones, followed by the pending records of
  the new submissions. After the startup no record is listed as running.
\<close>

theorem startup_reconciles_running_records:
  "(\<forall>r\<in>set (records st). jobStatus r = Running \<longrightarrow>
      (\<exists>r'\<in>set (records (restart now submissions st)).
         jobId r' = jobId r \<and> jobStatus r' = Error \<and>
         errorDetail r' = Some orphan_diagnostic)) \<and>
   orphan_diagnostic \<noteq> [] \<and>
   (\<forall>r'\<in>set (list_records (runner_startup now st)). jobStatus r' \<noteq> Running) \<and>
   map jobId (records (runner_startup now st)) = map jobId (records st) \<and>
   (\<exists>news. records (restart now submissions st) = records (runner_startup now st) @ news \<and>
      list_all (\<lambda>r. jobStatus r = Pending) news)"
proof (intro conjI ballI impI)
  fix r assume r: "r \<in> set (records st)" and run: "jobStatus r = Running"
  from records_restart [of now submissions st]
  obtain news where "records (restart now submissions st) = records (runner_startup now st) @ news"
    by (elim exE conjE)
  with r have "reconcile now r \<in> set (records (restart now submissions st))"
    by (simp add: runner_startup_def)
  with reconcile_running [OF run, of now]
  show "\<exists>r'\<in>set (records (restart now submissions st)).
         jobId r' = jobId r \<and> jobStatus r' = Error \<and>
         errorDetail r' = Some orphan_diagnostic"
    by (intro bexI [of _ "reconcile now r"])
next
  show "orphan_diagnostic \<noteq> []" by (rule orphan_diagnostic_not_empty)
next
  fix r' assume "r' \<in> set (list_records (runner_startup now st))"
  then show "jobStatus r' \<noteq> Running"
    by (auto simp: list_records_def runner_startup_def reconcile_not_running)
next
  show "map jobId (records (runner_startup now st)) = map jobId (records st)"
    by (simp add: runner_startup_def reconcile_def)
next
  show "\<exists>news. records (restart now submissions st) = records (runner_startup now st) @ news \<and>
      list_all (\<lambda>r. jobStatus r = Pending) news"
    by (rule records_restart)
qed

text \<open>
  A store with a finished and a running record, restarted at time 100 and then given one
  submission.
\<close>

theorem startup_reconciles_running_records_witness:
  "(pending_record ''j1'' ''a.pdf'' 10)\<lparr>jobStatus := Running, startedAt := Some 11\<rparr>
     \<in> set (records \<lparr>records =
         [(pending_record ''j0'' ''z.pdf'' 1)\<lparr>jobStatus := Finished\<rparr>,
          (pending_record ''j1'' ''a.pdf'' 10)\<lparr>jobStatus := Running, startedAt := Some 11\<rparr>],
         artifacts = []\<rparr>) \<and>
   records (restart 100 [(''j2'', ''b.pdf'', 101)] \<lparr>records =
         [(pending_record ''j0'' ''z.pdf'' 1)\<lparr>jobStatus := Finished\<rparr>,
          (pending_record ''j1'' ''a.pdf'' 10)\<lparr>jobStatus := Running, startedAt := Some 11\<rparr>],
         artifacts = []\<rparr>)
     = [(pending_record ''j0'' ''z.pdf'' 1)\<lparr>jobStatus := Finished\<rparr>,
        (pending_record ''j1'' ''a.pdf'' 10)\<lparr>jobStatus := Error, startedAt := Some 11,
           endedAt := Some 100, errorDetail := Some orphan_diagnostic\<rparr>,
        pending_record ''j2'' ''b.pdf'' 101] \<and>
   (\<exists>r'\<in>set (records (restart 100 [(''j2'', ''b.pdf'', 101)] \<lparr>records =
         [(pending_record ''j0'' ''z.pdf'' 1)\<lparr>jobStatus := Finished\<rparr>,
          (pending_record ''j1'' ''a.pdf'' 10)\<lparr>jobStatus := Running, startedAt := Some 11\<rparr>],
         artifacts = []\<rparr>)).
      jobId r' = ''j1'' \<and> jobStatus r' = Error \<and> errorDetail r' = Some orphan_diagnostic)"
proof -
  let ?r = "(pending_record ''j1'' ''a.pdf'' 10)\<lparr>jobStatus := Running, startedAt := Some 11\<rparr>"
  let ?st = "\<lparr>records =
         [(pending_record ''j0'' ''z.pdf'' 1)\<lparr>jobStatus := Finished\<rparr>, ?r],
         artifacts = []\<rparr>"
  have m: "?r \<in> set (records ?st)" by simp
  have s: "jobStatus ?r = Running" by simp
  have i: "jobId ?r = ''j1''" by (simp add: pending_record_def)
  have e: "records (restart 100 [(''j2'', ''b.pdf'', 101)] ?st)
     = [(pending_record ''j0'' ''z.pdf'' 1)\<lparr>jobStatus := Finished\<rparr>,
        (pending_record ''j1'' ''a.pdf'' 10)\<lparr>jobStatus := Error, startedAt := Some 11,
           endedAt := Some 100, errorDetail := Some orphan_diagnostic\<rparr>,
        pending_record ''j2'' ''b.pdf'' 101]"
    by (simp add: restart_def runner_startup_def reconcile_def submit_def pending_record_def)
  from startup_reconciles_running_records [of ?st 100 "[(''j2'', ''b.pdf'', 101)]"]
  have "\<forall>r\<in>set (records ?st). jobStatus r = Running \<longrightarrow>
      (\<exists>r'\<in>set (records (restart 100 [(''j2'', ''b.pdf'', 101)] ?st)).
         jobId r' = jobId r \<and> jobStatus r' = Error \<and>
         errorDetail r' = Some orphan_diagnostic)"
    by (rule conjunct1)
  from this [rule_format, OF m s]
  have "\<exists>r'\<in>set (records (restart 100 [(''j2'', ''b.pdf'', 101)] ?st)).
         jobId r' = ''j1'' \<and> jobStatus r' = Error \<and>
         errorDetail r' = Some orphan_diagnostic"
    unfolding i .
  with m e show ?thesis by (intro conjI)
qed

subsection \<open>Deleting a job\<close>

lemma get_record_Inr:
  "get_record jid st = Inr r \<Longrightarrow> r \<in> set (records st) \<and> jobId r = jid"
  by (auto simp: get_record_def find_Some_iff split: option.splits)

lemma delete_job_terminal:
  assumes "get_record jid st = Inr r" and "is_terminal (jobStatus r)"
  shows "delete_job jid st =
     (Inr (),
      st\<lparr>records := filter (\<lambda>r. jobId r \<noteq> jid) (records st),
         artifacts := (case resultLocation r of
                         None \<Rightarrow> artifacts st
                       | Some location \<Rightarrow> removeAll location (artifacts st))\<rparr>)"
  using assms by (simp add: delete_job_def)

lemma delete_job_conflict:
  assumes "get_record jid st = Inr r" and "jobStatus r = Pending \<or> jobStatus r = Running"
  shows "delete_job jid st = (Inl Conflict, st)"
  using assms by (auto simp: delete_job_def is_terminal_def)

lemma delete_job_succeeds_iff:
  "fst (delete_job jid st) = Inr () \<longleftrightarrow>
     (\<exists>r. get_record jid st = Inr r \<and> is_terminal (jobStatus r))"
  by (cases "get_record jid st") (auto simp: delete_job_def)

lemma handleDeleteTask_refused:
  "del_status d \<noteq> ''success'' \<Longrightarrow>
     hp_jobs (handleDeleteTask confirmed (Some d) refetched hs) = hp_jobs hs"
  by (simp add: handleDeleteTask_def)

lemma DeleteButton_always: "DeleteButton \<in> set (job_actions cancelling j)"
  by (simp add: job_actions_def)

text \<open>
  Claim C4. Deleting a job succeeds exactly when the job exists and its status is
  terminal; then the record is gone from the list and its result artifacts from the disk.
  For a pending or running job the deletion fails with \<^verbatim>\<open>Conflict\<close> and leaves the store
  as it is, so the record is still listed. The client shows the delete button for every
  job and leaves its job list as it is when the server refuses.
\<close>

theorem delete_only_terminal:
  "(fst (delete_job jid st) = Inr () \<longleftrightarrow>
      (\<exists>r. get_record jid st = Inr r \<and> is_terminal (jobStatus r))) \<and>
   (get_record jid st = Inr r \<and> is_terminal (jobStatus r) \<longrightarrow>
      fst (delete_job jid st) = Inr () \<and>
      jid \<notin> set (map jobId (list_records (snd (delete_job jid st)))) \<and>
      (\<forall>location. resultLocation r = Some location \<longrightarrow>
         location \<notin> set (artifacts (snd (delete_job jid st))))) \<and>
   (get_record jid st = Inr r \<and> (jobStatus r = Pending \<or> jobStatus r = Running) \<longrightarrow>
      delete_job jid st = (Inl Conflict, st) \<and>
      r \<in> set (list_records (snd (delete_job jid st)))) \<and>
   DeleteButton \<in> set (job_actions cancelling j) \<and>
   (del_status d \<noteq> ''success'' \<longrightarrow>
      hp_jobs (handleDeleteTask confirmed (Some d) refetched hs) = hp_jobs hs)"
proof (intro conjI impI allI)
  show "fst (delete_job jid st) = Inr () \<longleftrightarrow>
      (\<exists>r. get_record jid st = Inr r \<and> is_terminal (jobStatus r))"
    by (rule delete_job_succeeds_iff)
next
  assume a: "get_record jid st = Inr r \<and> is_terminal (jobStatus r)"
  then have d: "delete_job jid st =
     (Inr (),
      st\<lparr>records := filter (\<lambda>r. jobId r \<noteq> jid) (records st),
         artifacts := (case resultLocation r of
                         None \<Rightarrow> artifacts st
                       | Some location \<Rightarrow> removeAll location (artifacts st))\<rparr>)"
    by (intro delete_job_terminal) simp_all
  show "fst (delete_job jid st) = Inr ()" unfolding d by simp
  show "jid \<notin> set (map jobId (list_records (snd (delete_job jid st))))"
    unfolding d by (auto simp: list_records_def)
  show "location \<notin> set (artifacts (snd (delete_job jid st)))"
    if "resultLocation r = Some location" for location
    unfolding d using that by simp
next
  assume a: "get_record jid st = Inr r \<and> (jobStatus r = Pending \<or> jobStatus r = Running)"
  then have g: "get_record jid st = Inr r"
    and s: "jobStatus r = Pending \<or> jobStatus r = Running" by simp_all
  show d: "delete_job jid st = (Inl Conflict, st)"
    by (rule delete_job_conflict [OF g s])
  from get_record_Inr [OF g] show "r \<in> set (list_records (snd (delete_job jid st)))"
    unfolding d by (simp add: list_records_def)
next
  show "DeleteButton \<in> set (job_actions cancelling j)" by (rule DeleteButton_always)
next
  assume "del_status d \<noteq> ''success''"
  then show "hp_jobs (handleDeleteTask confirmed (Some d) refetched hs) = hp_jobs hs"
    by (rule handleDeleteTask_refused)
qed

text \<open>
  A store with a finished job \<^verbatim>\<open>j0\<close> and a running job \<^verbatim>\<open>j1\<close>.
\<close>

theorem delete_only_terminal_witness:
  "delete_job ''j1'' \<lparr>records =
       [(pending_record ''j0'' ''z.pdf'' 1)\<lparr>jobStatus := Finished, resultLocation := Some ''out/j0''\<rparr>,
        (pending_record ''j1'' ''a.pdf'' 10)\<lparr>jobStatus := Running\<rparr>],
       artifacts = [''out/j0'']\<rparr>
     = (Inl Conflict, \<lparr>records =
       [(pending_record ''j0'' ''z.pdf'' 1)\<lparr>jobStatus := Finished, resultLocation := Some ''out/j0''\<rparr>,
        (pending_record ''j1'' ''a.pdf'' 10)\<lparr>jobStatus := Running\<rparr>],
       artifacts = [''out/j0'']\<rparr>) \<and>
   fst (delete_job ''j0'' \<lparr>records =
       [(pending_record ''j0'' ''z.pdf'' 1)\<lparr>jobStatus := Finished, resultLocation := Some ''out/j0''\<rparr>,
        (pending_record ''j1'' ''a.pdf'' 10)\<lparr>jobStatus := Running\<rparr>],
       artifacts = [''out/j0'']\<rparr>) = Inr () \<and>
   ''j0'' \<notin> set (map jobId (list_records (snd (delete_job ''j0'' \<lparr>records =
       [(pending_record ''j0'' ''z.pdf'' 1)\<lparr>jobStatus := Finished, resultLocation := Some ''out/j0''\<rparr>,
        (pending_record ''j1'' ''a.pdf'' 10)\<lparr>jobStatus := Running\<rparr>],
       artifacts = [''out/j0'']\<rparr>)))) \<and>
   ''out/j0'' \<notin> set (artifacts (snd (delete_job ''j0'' \<lparr>records =
       [(pending_record ''j0'' ''z.pdf'' 1)\<lparr>jobStatus := Finished, resultLocation := Some ''out/j0''\<rparr>,
        (pending_record ''j1'' ''a.pdf'' 10)\<lparr>jobStatus := Running\<rparr>],
       artifacts = [''out/j0'']\<rparr>))) \<and>
   hp_jobs (handleDeleteTask True
       (Some \<lparr>del_status = ''error'', del_message = ''Conflict''\<rparr>) None
       \<lparr>hp_jobs = [], hp_isLoading = False, hp_sortBy = Newest, hp_cancellingTasks = {},
         hp_toasts = []\<rparr>) = []"
proof -
  let ?r0 = "(pending_record ''j0'' ''z.pdf'' 1)\<lparr>jobStatus := Finished, resultLocation := Some ''out/j0''\<rparr>"
  let ?r1 = "(pending_record ''j1'' ''a.pdf'' 10)\<lparr>jobStatus := Running\<rparr>"
  let ?st = "\<lparr>records = [?r0, ?r1], artifacts = [''out/j0'']\<rparr>"
  let ?hs = "\<lparr>hp_jobs = [], hp_isLoading = False, hp_sortBy = Newest, hp_cancellingTasks = {},
         hp_toasts = []\<rparr>"
  let ?d = "\<lparr>del_status = ''error'', del_message = ''Conflict''\<rparr>"
  have g0: "get_record ''j0'' ?st = Inr ?r0 \<and> is_terminal (jobStatus ?r0)"
    by (simp add: get_record_def pending_record_def is_terminal_def)
  have l0: "resultLocation ?r0 = Some ''out/j0''" by simp
  have g1: "get_record ''j1'' ?st = Inr ?r1 \<and> (jobStatus ?r1 = Pending \<or> jobStatus ?r1 = Running)"
    by (simp add: get_record_def pending_record_def)
  have d: "del_status ?d \<noteq> ''success''" by simp
  note t0 = delete_only_terminal [of "''j0''" ?st ?r0]
  note t1 = delete_only_terminal [of "''j1''" ?st ?r1 _ _ ?d True None ?hs]
  note a0 = t0 [THEN conjunct2, THEN conjunct1, THEN mp, OF g0]
  note a1 = t1 [THEN conjunct2, THEN conjunct2, THEN conjunct1, THEN mp, OF g1]
  note a4 = t1 [THEN conjunct2, THEN conjunct2, THEN conjunct2, THEN conjunct2, THEN mp, OF d]
  from a1 have 1: "delete_job ''j1'' ?st = (Inl Conflict, ?st)" by (rule conjunct1)
  from a0 have 2: "fst (delete_job ''j0'' ?st) = Inr ()" by (rule conjunct1)
  from a0 have 3: "''j0'' \<notin> set (map jobId (list_records (snd (delete_job ''j0'' ?st))))"
    by (rule conjunct2 [THEN conjunct1])
  from a0 have "\<forall>location. resultLocation ?r0 = Some location \<longrightarrow>
         location \<notin> set (artifacts (snd (delete_job ''j0'' ?st)))"
    by (rule conjunct2 [THEN conjunct2])
  from this [rule_format, OF l0]
  have 4: "''out/j0'' \<notin> set (artifacts (snd (delete_job ''j0'' ?st)))" .
  from a4 have 5: "hp_jobs (handleDeleteTask True (Some ?d) None ?hs) = []" by simp
  from 1 2 3 4 5 show ?thesis by (intro conjI)
qed


subsection \<open>The result package\<close>

lemma fetchResultPackage_cases:
  "get_record jid st = Inr r \<Longrightarrow>
     fetchResultPackage jid format st =
       (if jobStatus r = Finished then Inr (format, resultLocation r) else Inl NotReady)"
  "get_record jid st = Inl e \<Longrightarrow> fetchResultPackage jid format st = Inl e"
  by (simp_all add: fetchResultPackage_def)

lemma fetchResultPackage_succeeds_iff:
  "(\<exists>p. fetchResultPackage jid format st = Inr p) \<longleftrightarrow>
     (\<exists>r. get_record jid st = Inr r \<and> jobStatus r = Finished)"
  by (cases "get_record jid st") (auto simp: fetchResultPackage_def)

lemma DownloadMenu_iff:
  "DownloadMenu fs \<in> set (job_actions cancelling j) \<longleftrightarrow>
     status j = ''finished'' \<and> fs = [Mmd, Md, Txt]"
  by (auto simp: job_actions_def)

lemma surfaced_status_finished: "surfaced_status s = ''finished'' \<longleftrightarrow> s = Finished"
  by (cases s) simp_all

text \<open>
  Claim C5. The client renders the download menu of a job exactly when the status of the
  job is \<^verbatim>\<open>finished\<close>, and the menu offers the three formats mmd, md and txt. The
  orchestrator returns a package exactly for a finished job, in the requested format and
  from the same result location for every format; for a job in any other state the
  request fails with \<^verbatim>\<open>NotReady\<close>, and the client, shown that state, renders no download
  menu.
\<close>

theorem result_package_only_when_finished:
  "(DownloadMenu fs \<in> set (job_actions cancelling j) \<longleftrightarrow>
      status j = ''finished'' \<and> fs = [Mmd, Md, Txt]) \<and>
   map format_string [Mmd, Md, Txt] = [''mmd'', ''md'', ''txt''] \<and>
   distinct (map format_string [Mmd, Md, Txt]) \<and>
   ((\<exists>p. fetchResultPackage jid format st = Inr p) \<longleftrightarrow>
      (\<exists>r. get_record jid st = Inr r \<and> jobStatus r = Finished)) \<and>
   (get_record jid st = Inr r \<and> jobStatus r = Finished \<longrightarrow>
      fetchResultPackage jid format st = Inr (format, resultLocation r)) \<and>
   (get_record jid st = Inr r \<and> jobStatus r \<noteq> Finished \<longrightarrow>
      fetchResultPackage jid format st = Inl NotReady \<and>
      (status j = surfaced_status (jobStatus r) \<longrightarrow>
         (\<forall>fs. DownloadMenu fs \<notin> set (job_actions cancelling j))))"
proof (intro conjI impI allI)
  show "DownloadMenu fs \<in> set (job_actions cancelling j) \<longleftrightarrow>
      status j = ''finished'' \<and> fs = [Mmd, Md, Txt]"
    by (rule DownloadMenu_iff)
  show "map format_string [Mmd, Md, Txt] = [''mmd'', ''md'', ''txt'']" by simp
  show "distinct (map format_string [Mmd, Md, Txt])" by simp
  show "(\<exists>p. fetchResultPackage jid format st = Inr p) \<longleftrightarrow>
      (\<exists>r. get_record jid st = Inr r \<and> jobStatus r = Finished)"
    by (rule fetchResultPackage_succeeds_iff)
next
  assume "get_record jid st = Inr r \<and> jobStatus r = Finished"
  then show "fetchResultPackage jid format st = Inr (format, resultLocation r)"
    by (simp add: fetchResultPackage_cases(1))
next
  assume a: "get_record jid st = Inr r \<and> jobStatus r \<noteq> Finished"
  then show "fetchResultPackage jid format st = Inl NotReady"
    by (simp add: fetchResultPackage_cases(1))
  show "DownloadMenu fs \<notin> set (job_actions cancelling j)"
    if "status j = surfaced_status (jobStatus r)" for fs
    using a that by (simp add: DownloadMenu_iff surfaced_status_finished)
qed

text \<open>
  The same store: the package of the finished job, the refusal for the running one.
\<close>

theorem result_package_only_when_finished_witness:
  "fetchResultPackage ''j0'' Md \<lparr>records =
       [(pending_record ''j0'' ''z.pdf'' 1)\<lparr>jobStatus := Finished, resultLocation := Some ''out/j0''\<rparr>,
        (pending_record ''j1'' ''a.pdf'' 10)\<lparr>jobStatus := Running\<rparr>],
       artifacts = [''out/j0'']\<rparr> = Inr (Md, Some ''out/j0'') \<and>
   fetchResultPackage ''j1'' Md \<lparr>records =
       [(pending_record ''j0'' ''z.pdf'' 1)\<lparr>jobStatus := Finished, resultLocation := Some ''out/j0''\<rparr>,
        (pending_record ''j1'' ''a.pdf'' 10)\<lparr>jobStatus := Running\<rparr>],
       artifacts = [''out/j0'']\<rparr> = Inl NotReady \<and>
   (\<forall>fs. DownloadMenu fs \<notin> set (job_actions {}
       \<lparr>task_id = ''j1'', filename = ''a.pdf'', original_filename = ''a.pdf'',
         timestamp = ''2025-01-01T10:00:00'', runtime = None, status = ''running'',
         elapsed = None, result_dir = []\<rparr>))"
proof -
  let ?r0 = "(pending_record ''j0'' ''z.pdf'' 1)\<lparr>jobStatus := Finished, resultLocation := Some ''out/j0''\<rparr>"
  let ?r1 = "(pending_record ''j1'' ''a.pdf'' 10)\<lparr>jobStatus := Running\<rparr>"
  let ?st = "\<lparr>records = [?r0, ?r1], artifacts = [''out/j0'']\<rparr>"
  let ?j = "\<lparr>task_id = ''j1'', filename = ''a.pdf'', original_filename = ''a.pdf'',
         timestamp = ''2025-01-01T10:00:00'', runtime = None, status = ''running'',
         elapsed = None, result_dir = []\<rparr>"
  have g0: "get_record ''j0'' ?st = Inr ?r0 \<and> jobStatus ?r0 = Finished"
    by (simp add: get_record_def pending_record_def)
  have g1: "get_record ''j1'' ?st = Inr ?r1 \<and> jobStatus ?r1 \<noteq> Finished"
    by (simp add: get_record_def pending_record_def)
  have s: "status ?j = surfaced_status (jobStatus ?r1)" by simp
  note t0 = result_package_only_when_finished [of _ _ _ "''j0''" Md ?st ?r0]
  note t1 = result_package_only_when_finished [of _ "{}" ?j "''j1''" Md ?st ?r1]
  note f0 = t0 [THEN conjunct2, THEN conjunct2, THEN conjunct2, THEN conjunct2,
      THEN conjunct1, rule_format, OF g0]
  note f1 = t1 [THEN conjunct2, THEN conjunct2, THEN conjunct2, THEN conjunct2,
      THEN conjunct2, THEN mp, OF g1]
  from f0 have 1: "fetchResultPackage ''j0'' Md ?st = Inr (Md, Some ''out/j0'')" by simp
  from f1 have 2: "fetchResultPackage ''j1'' Md ?st = Inl NotReady" by (rule conjunct1)
  from f1 have "status ?j = surfaced_status (jobStatus ?r1) \<longrightarrow>
         (\<forall>fs. DownloadMenu fs \<notin> set (job_actions {} ?j))" by (rule conjunct2)
  from this s have 3: "\<forall>fs. DownloadMenu fs \<notin> set (job_actions {} ?j)" by (rule mp)
  from 1 2 3 show ?thesis by (intro conjI)
qed

end
